theory Spec2Isabelle
  imports Main "HOL-Library.Word" "HOL-Library.Signed_Division" "HOL-Library.Multiset"
begin

unbundle bit_operations_syntax

section \<open>Data model of \<^verbatim>\<open>fast_forward.cc\<close>\<close>

text \<open>
  The build targets x86_64 hosts: \<^verbatim>\<open>uintptr_t\<close>, \<^verbatim>\<open>intptr_t\<close> and the integer inside a
  \<^verbatim>\<open>remote_ptr\<close> are 64 bits wide. \<^verbatim>\<open>int\<close> values (operand size, instruction length, byte
  counts) never leave the range of a C \<^verbatim>\<open>int\<close> in this file and are modelled as \<open>int\<close>.
\<close>

type_synonym uintptr_t = "64 word"
type_synonym remote_ptr = "64 word"
type_synonym uint8_t = "8 word"

datatype SupportedArch = x86 | x86_64 | other_arch

text \<open>
  \<^verbatim>\<open>struct InstructionBuf\<close>. \<open>code_buf\<close> is the whole 32-byte array: the bytes from
  index \<open>code_buf_len\<close> on were never written by \<^verbatim>\<open>read_instruction\<close>.
\<close>

record InstructionBuf =
  arch :: SupportedArch
  code_buf :: "uint8_t list"
  code_buf_len :: int

record DecodedInstruction =
  operand_size :: int
  length' :: int
  modifies_flags :: bool

text \<open>
  What \<^verbatim>\<open>decode_x86_string_instruction\<close> hands back: \<open>Decoded d\<close> is \<^verbatim>\<open>return true\<close> with
  \<^verbatim>\<open>*decoded = d\<close>, \<open>NotDecoded\<close> is \<^verbatim>\<open>return false\<close>, and \<open>OutOfBounds l\<close> is a read of
  \<^verbatim>\<open>code_buf[i]\<close> at an index outside the array, on source line \<open>l\<close>.
\<close>

datatype decode_result = Decoded DecodedInstruction | NotDecoded | OutOfBounds nat

text \<open>The state of the scanning loop when it is left without \<^verbatim>\<open>return false\<close>.\<close>

record scan_state =
  scan_i :: int
  found_operand_prefix :: bool
  found_REP_prefix :: bool
  found_REXW_prefix :: bool
  scan_modifies_flags :: bool
  scan_done :: bool

datatype scan_result = Scanned scan_state | ScanFalse | ScanOutOfBounds

definition read_code_buf :: "InstructionBuf \<Rightarrow> int \<Rightarrow> uint8_t option" where
  "read_code_buf code i =
     (if 0 \<le> i \<and> nat i < List.length (code_buf code) then Some (code_buf code ! nat i) else None)"

text \<open>
  The \<^verbatim>\<open>for (i = 0; i < code.code_buf_len; ++i) switch (code.code_buf[i])\<close> loop, lines 43-79,
  entered at index \<open>i\<close> with the three prefix flags found so far.
\<close>

function scan_prefixes :: "InstructionBuf \<Rightarrow> int \<Rightarrow> bool \<Rightarrow> bool \<Rightarrow> bool \<Rightarrow> scan_result" where
  "scan_prefixes code i opnd rep rexw =
     (if i < code_buf_len code then
        (case read_code_buf code i of
           None \<Rightarrow> ScanOutOfBounds
         | Some b \<Rightarrow>
             if b = 0x66 then scan_prefixes code (i + 1) True rep rexw
             else if b = 0x48 then
               (if arch code = x86_64 then scan_prefixes code (i + 1) opnd rep True
                else ScanFalse)
             else if b = 0xF2 \<or> b = 0xF3 then scan_prefixes code (i + 1) opnd True rexw
             else if b = 0xA4 \<or> b = 0xA5 \<or> b = 0xAA \<or> b = 0xAB \<or> b = 0xAC \<or> b = 0xAD then
               Scanned \<lparr>scan_i = i, found_operand_prefix = opnd, found_REP_prefix = rep,
                        found_REXW_prefix = rexw, scan_modifies_flags = False, scan_done = True\<rparr>
             else if b = 0xA6 \<or> b = 0xA7 \<or> b = 0xAE \<or> b = 0xAF then
               Scanned \<lparr>scan_i = i, found_operand_prefix = opnd, found_REP_prefix = rep,
                        found_REXW_prefix = rexw, scan_modifies_flags = True, scan_done = True\<rparr>
             else ScanFalse)
      else
        Scanned \<lparr>scan_i = i, found_operand_prefix = opnd, found_REP_prefix = rep,
                 found_REXW_prefix = rexw, scan_modifies_flags = False, scan_done = False\<rparr>)"
  by pat_completeness auto
termination
  by (relation "measure (\<lambda>(code, i, opnd, rep, rexw). nat (code_buf_len code - i))") auto

declare scan_prefixes.simps [simp del]

text \<open>
  \<^verbatim>\<open>decode_x86_string_instruction\<close>, lines 33-93. After the loop only \<^verbatim>\<open>found_REP_prefix\<close> is
  tested (line 81); \<^verbatim>\<open>done\<close> is not looked at again, and line 86 reads \<^verbatim>\<open>code.code_buf[i]\<close>
  at the index the loop stopped at.
\<close>

definition decode_x86_string_instruction :: "InstructionBuf \<Rightarrow> decode_result" where
  "decode_x86_string_instruction code =
     (case scan_prefixes code 0 False False False of
        ScanFalse \<Rightarrow> NotDecoded
      | ScanOutOfBounds \<Rightarrow> OutOfBounds 44
      | Scanned s \<Rightarrow>
          if \<not> found_REP_prefix s then NotDecoded
          else
            (case read_code_buf code (scan_i s) of
               None \<Rightarrow> OutOfBounds 86
             | Some b \<Rightarrow>
                 Decoded \<lparr>operand_size =
                            (if b AND 1 \<noteq> 0 then
                               (if found_REXW_prefix s then 8
                                else if found_operand_prefix s then 2 else 4)
                             else 1),
                          length' = scan_i s + 1,
                          modifies_flags = scan_modifies_flags s\<rparr>))"


section \<open>Registers, watchpoints and the task\<close>

text \<open>
  Modelled from the spec: \<^verbatim>\<open>Registers\<close>, \<^verbatim>\<open>WatchConfig\<close>, \<^verbatim>\<open>Task\<close> and its virtual-memory view
  \<^verbatim>\<open>AddressSpace\<close> (section 3), which are declared in headers that are not part of the
  sources at hand; the records below hold what \<^verbatim>\<open>fast_forward.cc\<close> reads and writes through
  them. \<open>other_regs\<close> stands for every register the file never names; \<open>num_bytes\<close> has
  the type at which \<^verbatim>\<open>mem_intersect\<close> receives it; \<open>kind\<close> is the watchpoint's type.
\<close>

record Registers =
  ip :: uintptr_t
  cx :: uintptr_t
  si :: uintptr_t
  di :: uintptr_t
  df_flag :: bool
  other_regs :: "uintptr_t list"

datatype WatchType = WATCH_EXEC | WATCH_WRITE | WATCH_READWRITE

record WatchConfig =
  addr :: remote_ptr
  num_bytes :: int
  kind :: WatchType

datatype TrapType = TRAP_NONE | TRAP_STEPI | TRAP_BKPT_INTERNAL | TRAP_BKPT_USER

record AddressSpace =
  breakpoints :: "(remote_ptr \<times> TrapType) multiset"
  watchpoints :: "WatchConfig list"
  saved_watchpoints :: "WatchConfig list list"

record Task =
  task_arch :: SupportedArch
  regs :: Registers
  pending_sig :: int
  debug_status :: uintptr_t
  vm :: AddressSpace
  memory :: "remote_ptr \<Rightarrow> uint8_t option"

datatype ResumeRequest = RESUME_SINGLESTEP | RESUME_CONT

text \<open>
  The tracee itself: what the stopped process does when it is resumed, as the registers,
  the signal and the debug status it next stops with. It is a parameter of the model.
\<close>

type_synonym Tracee = "ResumeRequest \<Rightarrow> Task \<Rightarrow> Registers \<times> int \<times> uintptr_t"

text \<open>
  An \<^verbatim>\<open>assert\<close> or \<^verbatim>\<open>ASSERT\<close> that fails aborts the debugger; the number is the source
  line of the assertion. \<open>UndefinedRead\<close> is a read outside \<^verbatim>\<open>code_buf\<close>.
\<close>

datatype abort = AssertionFailed nat | UndefinedRead nat

text \<open>
  Modelled from the spec: the signal number and the debug-status bits, declared outside the
  sources at hand, with their values on Linux and x86 (\<^verbatim>\<open>SIGTRAP\<close> is signal 5; the four
  breakpoint-condition bits and the single-step bit of \<^verbatim>\<open>DR6\<close>). \<^verbatim>\<open>BYTES_COALESCED\<close> is
  the constant of line 258.
\<close>

definition SIGTRAP :: int where
  "SIGTRAP = 5"

definition DS_WATCHPOINT_ANY :: uintptr_t where
  "DS_WATCHPOINT_ANY = 0xF"

definition DS_SINGLESTEP :: uintptr_t where
  "DS_SINGLESTEP = 0x4000"

definition BYTES_COALESCED :: uintptr_t where
  "BYTES_COALESCED = 128"

subsection \<open>The Task interface\<close>

text \<open>
  Modelled from the spec: \<^verbatim>\<open>resume_execution(mode, WAIT)\<close> of the Task interface (section 6)
  blocks until the tracee next stops; the stop replaces the registers, the pending signal
  and the debug status, and touches neither the breakpoint nor the watchpoint tables.
\<close>

definition resume_execution :: "Tracee \<Rightarrow> ResumeRequest \<Rightarrow> Task \<Rightarrow> Task" where
  "resume_execution hw how t =
     (case hw how t of
        (r, sig, ds) \<Rightarrow> t\<lparr>regs := r, pending_sig := sig, debug_status := ds\<rparr>)"

text \<open>
  Modelled from the spec: \<^verbatim>\<open>consume_debug_status()\<close> returns the debug status and clears it;
  \<^verbatim>\<open>debug_status()\<close> only reads it.
\<close>

definition consume_debug_status :: "Task \<Rightarrow> uintptr_t \<times> Task" where
  "consume_debug_status t = (debug_status t, t\<lparr>debug_status := 0\<rparr>)"

definition set_regs :: "Registers \<Rightarrow> Task \<Rightarrow> Task" where
  "set_regs r t = t\<lparr>regs := r\<rparr>"

text \<open>Modelled from the spec: \<^verbatim>\<open>matches\<close> is equality of register snapshots (section 3).\<close>

definition matches :: "Registers \<Rightarrow> Registers \<Rightarrow> bool" where
  "matches s r = (s = r)"

text \<open>
  Modelled from the spec: \<^verbatim>\<open>read_bytes_fallible(addr, len, buf)\<close> reads bytes from \<open>addr\<close> on
  until \<open>len\<close> are read or one is unreadable; the list holds the bytes read, its length
  is the count returned. (When nothing can be read the count is not positive, and the
  decoder scans nothing.)
\<close>

fun read_bytes_fallible :: "Task \<Rightarrow> remote_ptr \<Rightarrow> nat \<Rightarrow> uint8_t list" where
  "read_bytes_fallible t a 0 = []"
| "read_bytes_fallible t a (Suc n) =
     (case memory t a of
        None \<Rightarrow> []
      | Some b \<Rightarrow> b # read_bytes_fallible t (a + 1) n)"

text \<open>
  \<^verbatim>\<open>read_instruction\<close>, lines 19-25. \<open>uninit\<close> is what the 32 bytes of the local \<^verbatim>\<open>result\<close>
  held before the call: the read overwrites only the bytes it fetched.
\<close>

definition read_instruction :: "uint8_t list \<Rightarrow> Task \<Rightarrow> remote_ptr \<Rightarrow> InstructionBuf" where
  "read_instruction uninit t a =
     (let bytes = read_bytes_fallible t a 32 in
      \<lparr>arch = task_arch t,
       code_buf = bytes @ drop (List.length bytes) uninit,
       code_buf_len = int (List.length bytes)\<rparr>)"

subsection \<open>The breakpoint and watchpoint tables\<close>

text \<open>
  Modelled from the spec: the virtual-memory view of section 6. Breakpoints are counted
  per address and kind, so that adding and removing one leaves the others as they were; a
  user breakpoint hides an internal one at the same address.
\<close>

definition get_breakpoint_type_at_addr :: "AddressSpace \<Rightarrow> remote_ptr \<Rightarrow> TrapType" where
  "get_breakpoint_type_at_addr v a =
     (if (a, TRAP_BKPT_USER) \<in># breakpoints v then TRAP_BKPT_USER
      else if (a, TRAP_BKPT_INTERNAL) \<in># breakpoints v then TRAP_BKPT_INTERNAL
      else TRAP_NONE)"

definition all_watchpoints :: "AddressSpace \<Rightarrow> WatchConfig list" where
  "all_watchpoints v = watchpoints v"

definition save_watchpoints :: "AddressSpace \<Rightarrow> AddressSpace" where
  "save_watchpoints v = v\<lparr>saved_watchpoints := watchpoints v # saved_watchpoints v\<rparr>"

definition remove_all_watchpoints :: "AddressSpace \<Rightarrow> AddressSpace" where
  "remove_all_watchpoints v = v\<lparr>watchpoints := []\<rparr>"

definition restore_watchpoints :: "AddressSpace \<Rightarrow> AddressSpace" where
  "restore_watchpoints v =
     (case saved_watchpoints v of
        [] \<Rightarrow> v
      | w # ws \<Rightarrow> v\<lparr>watchpoints := w, saved_watchpoints := ws\<rparr>)"

text \<open>
  Modelled from the spec: \<^verbatim>\<open>add_watchpoint\<close> refuses when the four debug registers of the
  processor are taken; \<^verbatim>\<open>add_breakpoint\<close> refuses when the byte to be replaced by the
  breakpoint instruction cannot be read.
\<close>

definition add_watchpoint ::
  "AddressSpace \<Rightarrow> remote_ptr \<Rightarrow> int \<Rightarrow> WatchType \<Rightarrow> bool \<times> AddressSpace" where
  "add_watchpoint v a n k =
     (if List.length (watchpoints v) < 4
      then (True, v\<lparr>watchpoints := watchpoints v @ [\<lparr>addr = a, num_bytes = n, kind = k\<rparr>]\<rparr>)
      else (False, v))"

definition add_breakpoint :: "Task \<Rightarrow> remote_ptr \<Rightarrow> TrapType \<Rightarrow> bool \<times> Task" where
  "add_breakpoint t a k =
     (if memory t a = None then (False, t)
      else (True, t\<lparr>vm := (vm t)\<lparr>breakpoints := add_mset (a, k) (breakpoints (vm t))\<rparr>\<rparr>))"

definition remove_breakpoint :: "AddressSpace \<Rightarrow> remote_ptr \<Rightarrow> TrapType \<Rightarrow> AddressSpace" where
  "remove_breakpoint v a k = v\<lparr>breakpoints := breakpoints v - {#(a, k)#}\<rparr>"

section \<open>The iteration bounds\<close>

text \<open>
  \<^verbatim>\<open>mem_intersect\<close>, lines 95-100. \<^verbatim>\<open>a + s\<close> on a \<^verbatim>\<open>remote_ptr\<close> adds the sign-extended
  \<^verbatim>\<open>int\<close> modulo \<open>2^64\<close>; the comparisons are unsigned. The two \<^verbatim>\<open>assert\<close>s are checked,
  as the source has them (a build that defines \<^verbatim>\<open>NDEBUG\<close> would drop them).
\<close>

definition mem_intersect :: "remote_ptr \<Rightarrow> int \<Rightarrow> remote_ptr \<Rightarrow> int \<Rightarrow> abort + bool" where
  "mem_intersect a1 s1 a2 s2 =
     (if \<not> (a1 + word_of_int s1 > a1) then Inl (AssertionFailed 97)
      else if \<not> (a2 + word_of_int s2 > a2) then Inl (AssertionFailed 98)
      else Inr (max a1 a2 < min (a1 + word_of_int s1) (a2 + word_of_int s2)))"

text \<open>
  Modelled from the spec: the difference of two \<^verbatim>\<open>remote_ptr\<close>s, whose class is declared
  outside the sources at hand. The spec writes \<open>(w.addr - R) / size\<close> on addresses; the
  difference is taken as the signed machine integer (\<^verbatim>\<open>intptr_t\<close>) it is in C++, which is
  the difference of the addresses whenever that is below \<open>2^63\<close> in size, and \<^verbatim>\<open>/\<close> on it
  is C's signed division, which truncates towards zero.
\<close>

definition ptr_diff :: "remote_ptr \<Rightarrow> remote_ptr \<Rightarrow> int" where
  "ptr_diff a b = sint (a - b)"

text \<open>\<^verbatim>\<open>bound_iterations_for_watchpoint\<close>, lines 102-135; the result is the new \<^verbatim>\<open>*iterations\<close>.\<close>

definition bound_iterations_for_watchpoint ::
  "Task \<Rightarrow> remote_ptr \<Rightarrow> DecodedInstruction \<Rightarrow> WatchConfig \<Rightarrow> uintptr_t \<Rightarrow> abort + uintptr_t" where
  "bound_iterations_for_watchpoint t reg decoded watch iterations =
     (let size = operand_size decoded;
          direction = (if df_flag (regs t) then - 1 else 1 :: int)
      in case mem_intersect reg size (addr watch) (num_bytes watch) of
           Inl a \<Rightarrow> Inl a
         | Inr True \<Rightarrow> Inr 0
         | Inr False \<Rightarrow>
             if direction > 0 then
               (if addr watch < reg then Inr iterations
                else Inr (min iterations (word_of_int (ptr_diff (addr watch) reg sdiv size))))
             else
               (if addr watch > reg then Inr iterations
                else Inr (min iterations
                       (word_of_int
                          (ptr_diff reg (addr watch + word_of_int (num_bytes watch)) sdiv size
                           + 1)))))"

text \<open>
  The loop over \<^verbatim>\<open>all_watchpoints()\<close>, lines 236-241: each watchpoint bounds the iterations
  through \<^verbatim>\<open>SI\<close>, then through \<^verbatim>\<open>DI\<close>.
\<close>

fun bound_iterations_for_watchpoints ::
  "Task \<Rightarrow> DecodedInstruction \<Rightarrow> WatchConfig list \<Rightarrow> uintptr_t \<Rightarrow> abort + uintptr_t" where
  "bound_iterations_for_watchpoints t decoded [] iterations = Inr iterations"
| "bound_iterations_for_watchpoints t decoded (watch # ws) iterations =
     (case bound_iterations_for_watchpoint t (si (regs t)) decoded watch iterations of
        Inl a \<Rightarrow> Inl a
      | Inr iterations \<Rightarrow>
          (case bound_iterations_for_watchpoint t (di (regs t)) decoded watch iterations of
             Inl a \<Rightarrow> Inl a
           | Inr iterations \<Rightarrow> bound_iterations_for_watchpoints t decoded ws iterations))"

text \<open>
  The loop over \<^verbatim>\<open>states\<close>, lines 201-223. The null-terminated array is the list of its
  entries before the terminator.
\<close>

fun bound_iterations_for_states ::
  "remote_ptr \<Rightarrow> DecodedInstruction \<Rightarrow> uintptr_t \<Rightarrow> Registers list \<Rightarrow> uintptr_t \<Rightarrow> uintptr_t" where
  "bound_iterations_for_states entry_ip decoded cur_cx [] iterations = iterations"
| "bound_iterations_for_states entry_ip decoded cur_cx (state # states) iterations =
     (if ip state = entry_ip then
        (let dest_cx = cx state in
         if dest_cx = 0 then bound_iterations_for_states entry_ip decoded cur_cx states iterations
         else if dest_cx \<ge> cur_cx then
           bound_iterations_for_states entry_ip decoded cur_cx states iterations
         else bound_iterations_for_states entry_ip decoded cur_cx states
                (min iterations (cur_cx - dest_cx - 1)))
      else if ip state = entry_ip + word_of_int (length' decoded) then
        (let dest_cx = cx state in
         if dest_cx \<ge> cur_cx then
           bound_iterations_for_states entry_ip decoded cur_cx states iterations
         else bound_iterations_for_states entry_ip decoded cur_cx states
                (min iterations (cur_cx - dest_cx - 1)))
      else bound_iterations_for_states entry_ip decoded cur_cx states iterations)"


section \<open>The routine\<close>

text \<open>
  Lines 262-269: save and remove the watchpoints, then install the 1-byte watchpoint at
  \<^verbatim>\<open>DI + direction * watch_offset\<close> and the internal breakpoint after the instruction.
\<close>

definition install_fast_forward_traps ::
  "remote_ptr \<Rightarrow> DecodedInstruction \<Rightarrow> int \<Rightarrow> uintptr_t \<Rightarrow> Task \<Rightarrow> (abort \<times> Task) + Task" where
  "install_fast_forward_traps entry_ip decoded direction watch_offset t =
     (let t = t\<lparr>vm := remove_all_watchpoints (save_watchpoints (vm t))\<rparr>;
          watch_di = di (regs t) + word_of_int direction * watch_offset;
          added = add_watchpoint (vm t) watch_di 1 WATCH_READWRITE;
          t = t\<lparr>vm := snd added\<rparr>
      in if \<not> fst added then Inl (AssertionFailed 267, t)
         else
           (let added = add_breakpoint t (entry_ip + word_of_int (length' decoded))
                          TRAP_BKPT_INTERNAL
            in if \<not> fst added then Inl (AssertionFailed 269, snd added)
               else Inr (snd added)))"

text \<open>
  Lines 260-288, the body of \<^verbatim>\<open>if (watch_offset > BYTES_COALESCED)\<close>; the result is the task
  and the new \<^verbatim>\<open>iterations\<close>.
\<close>

definition batched_phase ::
  "Tracee \<Rightarrow> remote_ptr \<Rightarrow> DecodedInstruction \<Rightarrow> uintptr_t \<Rightarrow> int \<Rightarrow> uintptr_t \<Rightarrow> Task \<Rightarrow> uintptr_t
     \<Rightarrow> (abort \<times> Task) + (Task \<times> uintptr_t)" where
  "batched_phase hw entry_ip decoded cur_cx direction watch_offset t iterations =
     (let watch_offset = watch_offset - BYTES_COALESCED
      in case install_fast_forward_traps entry_ip decoded direction watch_offset t of
           Inl e \<Rightarrow> Inl e
         | Inr t \<Rightarrow>
             (let t = resume_execution hw RESUME_CONT t
              in if pending_sig t \<noteq> SIGTRAP then Inl (AssertionFailed 272, t)
                 else
                   (let consumed = consume_debug_status t;
                        debug_status = fst consumed;
                        t = snd consumed
                    in case
                         (if debug_status AND DS_WATCHPOINT_ANY = 0 then
                            (if \<not> (ip (regs t) = entry_ip + word_of_int (length' decoded) + 1
                                    \<and> modifies_flags decoded)
                             then Inl (AssertionFailed 277, t)
                             else
                               (let tmp = regs t;
                                    tmp = tmp\<lparr>ip := entry_ip + word_of_int (length' decoded)\<rparr>
                                in Inr (set_regs tmp t)))
                          else Inr t)
                       of
                         Inl e \<Rightarrow> Inl e
                       | Inr t \<Rightarrow>
                           (let t = t\<lparr>vm := remove_breakpoint (vm t)
                                              (entry_ip + word_of_int (length' decoded))
                                              TRAP_BKPT_INTERNAL\<rparr>;
                                t = t\<lparr>vm := restore_watchpoints (vm t)\<rparr>
                            in Inr (t, iterations - (cur_cx - cx (regs t)))))))"

text \<open>Lines 294-303: single-step through the remaining iterations.\<close>

function singlestep_remaining ::
  "Tracee \<Rightarrow> remote_ptr \<Rightarrow> Task \<Rightarrow> uintptr_t \<Rightarrow> (abort \<times> Task) + Task" where
  "singlestep_remaining hw entry_ip t iterations =
     (if iterations > 0 \<and> ip (regs t) = entry_ip then
        (if pending_sig (resume_execution hw RESUME_SINGLESTEP t) \<noteq> SIGTRAP
         then Inl (AssertionFailed 296, resume_execution hw RESUME_SINGLESTEP t)
         else if fst (consume_debug_status (resume_execution hw RESUME_SINGLESTEP t))
                   AND DS_WATCHPOINT_ANY \<noteq> 0
         then Inl (AssertionFailed 301,
                   snd (consume_debug_status (resume_execution hw RESUME_SINGLESTEP t)))
         else singlestep_remaining hw entry_ip
                (snd (consume_debug_status (resume_execution hw RESUME_SINGLESTEP t)))
                (iterations - 1))
      else Inr t)"
  by pat_completeness auto
termination
  by (relation "measure (\<lambda>(hw, entry_ip, t, iterations). unat iterations)")
     (auto simp: unat_gt_0 unat_minus_one word_gt_0)

declare singlestep_remaining.simps [simp del]

text \<open>
  Lines 250-303 of one pass through \<^verbatim>\<open>while (true)\<close>: the batched phase when the watch offset
  exceeds \<^verbatim>\<open>BYTES_COALESCED\<close>, then the single-steps.
\<close>

definition run_iterations ::
  "Tracee \<Rightarrow> remote_ptr \<Rightarrow> DecodedInstruction \<Rightarrow> uintptr_t \<Rightarrow> Task \<Rightarrow> uintptr_t
     \<Rightarrow> (abort \<times> Task) + Task" where
  "run_iterations hw entry_ip decoded cur_cx t iterations =
     (let direction = (if df_flag (regs t) then - 1 else 1 :: int);
          watch_offset = word_of_int (operand_size decoded) * (iterations - 1)
      in case
           (if watch_offset > BYTES_COALESCED
            then batched_phase hw entry_ip decoded cur_cx direction watch_offset t iterations
            else Inr (t, iterations))
         of
           Inl e \<Rightarrow> Inl e
         | Inr (t, iterations) \<Rightarrow> singlestep_remaining hw entry_ip t iterations)"

text \<open>
  Lines 188-245 of one pass: the bound on the iterations. \<open>None\<close> is the \<^verbatim>\<open>return\<close> of
  line 191 (\<^verbatim>\<open>cur_cx == 0\<close>).
\<close>

definition compute_iterations ::
  "remote_ptr \<Rightarrow> DecodedInstruction \<Rightarrow> Task \<Rightarrow> Registers list \<Rightarrow> abort + uintptr_t option" where
  "compute_iterations entry_ip decoded t states =
     (let cur_cx = cx (regs t)
      in if cur_cx = 0 then Inr None
         else
           (let iterations = cur_cx - 1;
                iterations = bound_iterations_for_states entry_ip decoded cur_cx states iterations
            in case bound_iterations_for_watchpoints t decoded (all_watchpoints (vm t)) iterations
               of
                 Inl a \<Rightarrow> Inl a
               | Inr iterations \<Rightarrow> Inr (Some iterations)))"

text \<open>
  One pass through the body of \<^verbatim>\<open>while (true)\<close> up to the decision of line 305, lines
  188-311. \<open>Inl\<close> holds the result of a pass that leaves the routine (a \<^verbatim>\<open>return\<close>, the
  \<^verbatim>\<open>break\<close> of line 323 or a failed assertion); \<open>Inr (t', r)\<close> is the early exit of the
  instruction due to flags being modified, past the assertion of line 307, with the task
  \<open>t'\<close> and the registers \<open>r\<close> saved at line 250.
\<close>

definition fast_forward_pass ::
  "Tracee \<Rightarrow> remote_ptr \<Rightarrow> DecodedInstruction \<Rightarrow> Task \<Rightarrow> Registers list
     \<Rightarrow> ((abort \<times> Task) + Task) + (Task \<times> Registers)" where
  "fast_forward_pass hw entry_ip decoded t states =
     (case compute_iterations entry_ip decoded t states of
        Inl a \<Rightarrow> Inl (Inl (a, t))
      | Inr None \<Rightarrow> Inl (Inr t)
      | Inr (Some iterations) \<Rightarrow>
          if iterations = 0 then Inl (Inr t)
          else
            (let r = regs t
             in case run_iterations hw entry_ip decoded (cx (regs t)) t iterations of
                  Inl e \<Rightarrow> Inl (Inl e)
                | Inr t' \<Rightarrow>
                    if ip (regs t') \<noteq> entry_ip then
                      (if \<not> (ip (regs t') = entry_ip + word_of_int (length' decoded)
                              \<and> modifies_flags decoded)
                       then Inl (Inl (AssertionFailed 307, t'))
                       else Inr (t', r))
                    else Inl (Inr t')))"

text \<open>
  The \<^verbatim>\<open>while (true)\<close> loop, lines 172-325. \<open>states\<close> is the list the pointer \<^verbatim>\<open>states\<close>
  points at, \<open>states_copy\<close> the vector of that name without its terminator. After an
  early exit line 312 asserts that \<^verbatim>\<open>states_copy\<close> is empty; lines 313-320 then copy the
  states, append the registers at the exit, point \<^verbatim>\<open>states\<close> at the copy and put the saved
  registers back.
\<close>

function fast_forward_loop ::
  "Tracee \<Rightarrow> remote_ptr \<Rightarrow> DecodedInstruction \<Rightarrow> Task \<Rightarrow> Registers list \<Rightarrow> Registers list
     \<Rightarrow> (abort \<times> Task) + Task" where
  "fast_forward_loop hw entry_ip decoded t states states_copy =
     (case fast_forward_pass hw entry_ip decoded t states of
        Inl result \<Rightarrow> result
      | Inr (t', r) \<Rightarrow>
          if states_copy \<noteq> [] then Inl (AssertionFailed 312, t')
          else fast_forward_loop hw entry_ip decoded (set_regs r t')
                 (states @ [regs t']) (states @ [regs t']))"
  by pat_completeness auto
termination
  by (relation "measure (\<lambda>(hw, entry_ip, decoded, t, states, states_copy).
                           if states_copy = [] then 1 else 0)")
     auto

declare fast_forward_loop.simps [simp del]

text \<open>\<^verbatim>\<open>fast_forward_through_instruction\<close>, lines 137-326.\<close>

definition fast_forward_through_instruction ::
  "Tracee \<Rightarrow> uint8_t list \<Rightarrow> Task \<Rightarrow> Registers list \<Rightarrow> (abort \<times> Task) + Task" where
  "fast_forward_through_instruction hw uninit t states =
     (let entry_ip = ip (regs t);
          t = resume_execution hw RESUME_SINGLESTEP t
      in if pending_sig t \<noteq> SIGTRAP then Inl (AssertionFailed 141, t)
         else if ip (regs t) \<noteq> entry_ip then Inr t
         else if get_breakpoint_type_at_addr (vm t) entry_ip \<noteq> TRAP_NONE then Inr t
         else if debug_status t AND DS_WATCHPOINT_ANY \<noteq> 0 then Inr t
         else if list_ex (\<lambda>s. matches s (regs t)) states then Inr t
         else if task_arch t \<noteq> x86 \<and> task_arch t \<noteq> x86_64 then Inr t
         else
           (case decode_x86_string_instruction (read_instruction uninit t entry_ip) of
              NotDecoded \<Rightarrow> Inr t
            | OutOfBounds l \<Rightarrow> Inl (UndefinedRead l, t)
            | Decoded decoded \<Rightarrow> fast_forward_loop hw entry_ip decoded t states []))"


section \<open>Tracees\<close>

text \<open>
  Modelled from the spec: a tracee stopped at a REP-prefixed string instruction of
  \<open>len\<close> bytes and operand size \<open>size\<close> (section 4.1). Each iteration reads or writes
  through \<^verbatim>\<open>SI\<close> and \<^verbatim>\<open>DI\<close>, moves both by the operand size in the direction of \<^verbatim>\<open>DF\<close> and
  decrements \<^verbatim>\<open>CX\<close>; the instruction is left when \<^verbatim>\<open>CX\<close> reaches 0 or, for a comparing
  instruction (\<open>compares\<close>, a \<^verbatim>\<open>REPE CMPS\<close>), when the two bytes compared differ. An
  iteration on an unmapped address stops the tracee with \<^verbatim>\<open>SIGSEGV\<close> instead. A watchpoint
  on a byte an iteration touches stops the tracee after that iteration. What the tracee
  stores into memory is not tracked: the routine never reads it back.
\<close>

definition SIGSEGV :: int where
  "SIGSEGV = 11"

definition ranges_overlap :: "remote_ptr \<Rightarrow> int \<Rightarrow> remote_ptr \<Rightarrow> int \<Rightarrow> bool" where
  "ranges_overlap a n b m = (uint a < uint b + m \<and> uint b < uint a + n)"

definition touches_watchpoint :: "Task \<Rightarrow> Registers \<Rightarrow> int \<Rightarrow> bool" where
  "touches_watchpoint t r sz =
     list_ex (\<lambda>w. ranges_overlap (si r) sz (addr w) (num_bytes w)
                \<or> ranges_overlap (di r) sz (addr w) (num_bytes w))
       (watchpoints (vm t))"

definition string_iteration :: "int \<Rightarrow> int \<Rightarrow> bool \<Rightarrow> Task \<Rightarrow> Registers \<Rightarrow> Registers" where
  "string_iteration len sz compares t r =
     (let step = (if df_flag r then - word_of_int sz else word_of_int sz);
          leaves = (cx r - 1 = 0 \<or> (compares \<and> memory t (si r) \<noteq> memory t (di r)))
      in r\<lparr>ip := (if leaves then ip r + word_of_int len else ip r),
           cx := cx r - 1, si := si r + step, di := di r + step\<rparr>)"

text \<open>
  Past the instruction the tracee runs into the internal breakpoint when there is one (the
  stop is then one byte after it, with no debug status); otherwise it runs on, which the
  model ends with a stop that is not a trap.
\<close>

definition after_instruction :: "Task \<Rightarrow> Registers \<Rightarrow> Registers \<times> int \<times> uintptr_t" where
  "after_instruction t r =
     (if get_breakpoint_type_at_addr (vm t) (ip r) \<noteq> TRAP_NONE
      then (r\<lparr>ip := ip r + 1\<rparr>, SIGTRAP, 0)
      else (r, SIGSEGV, 0))"

function continue_string ::
  "int \<Rightarrow> int \<Rightarrow> bool \<Rightarrow> Task \<Rightarrow> Registers \<Rightarrow> Registers \<times> int \<times> uintptr_t" where
  "continue_string len sz compares t r =
     (if cx r = 0 then after_instruction t (r\<lparr>ip := ip r + word_of_int len\<rparr>)
      else if memory t (si r) = None \<or> memory t (di r) = None then (r, SIGSEGV, 0)
      else if touches_watchpoint t r sz
      then (string_iteration len sz compares t r, SIGTRAP, 1)
      else if ip (string_iteration len sz compares t r) \<noteq> ip r
      then after_instruction t (string_iteration len sz compares t r)
      else continue_string len sz compares t (string_iteration len sz compares t r))"
  by pat_completeness auto
termination
  by (relation "measure (\<lambda>(len, sz, compares, t, r). unat (cx r))")
     (auto simp: string_iteration_def Let_def unat_minus_one unat_gt_0)

declare continue_string.simps [simp del]

definition rep_string_tracee :: "int \<Rightarrow> int \<Rightarrow> bool \<Rightarrow> Tracee" where
  "rep_string_tracee len sz compares how t =
     (case how of
        RESUME_SINGLESTEP \<Rightarrow>
          (let r = regs t
           in if cx r = 0 then (r\<lparr>ip := ip r + word_of_int len\<rparr>, SIGTRAP, DS_SINGLESTEP)
              else if memory t (si r) = None \<or> memory t (di r) = None then (r, SIGSEGV, 0)
              else (string_iteration len sz compares t r, SIGTRAP,
                    DS_SINGLESTEP OR (if touches_watchpoint t r sz then 1 else 0)))
      | RESUME_CONT \<Rightarrow> continue_string len sz compares t (regs t))"


subsection \<open>Scenarios\<close>

text \<open>
  Code at \<open>0x1000\<close>: the two given bytes, then \<^verbatim>\<open>NOP\<close>s to the end of the page. Data is
  mapped from \<open>0x8000\<close> up to \<open>data_end\<close>.
\<close>

definition scenario_memory :: "uint8_t \<Rightarrow> uint8_t \<Rightarrow> remote_ptr \<Rightarrow> remote_ptr \<Rightarrow> uint8_t option" where
  "scenario_memory b0 b1 data_end a =
     (if a = 0x1000 then Some b0
      else if a = 0x1001 then Some b1
      else if 0x1000 \<le> a \<and> a < 0x2000 then Some 0x90
      else if 0x8000 \<le> a \<and> a < data_end then Some 0
      else None)"

definition scenario_task ::
  "uint8_t \<Rightarrow> uint8_t \<Rightarrow> remote_ptr \<Rightarrow> uintptr_t \<Rightarrow> uintptr_t \<Rightarrow> uintptr_t \<Rightarrow> WatchConfig list \<Rightarrow> Task" where
  "scenario_task b0 b1 data_end c s d ws =
     \<lparr>task_arch = x86_64,
      regs = \<lparr>ip = 0x1000, cx = c, si = s, di = d, df_flag = False, other_regs = []\<rparr>,
      pending_sig = 0,
      debug_status = 0,
      vm = \<lparr>breakpoints = {#}, watchpoints = ws, saved_watchpoints = []\<rparr>,
      memory = scenario_memory b0 b1 data_end\<rparr>"

text \<open>
  Scenario S1 of section 8: \<^verbatim>\<open>rep movsb\<close> (\<^verbatim>\<open>F3 A4\<close>) at \<open>0x1000\<close>, \<^verbatim>\<open>CX = 1000\<close>, \<^verbatim>\<open>SI = 0x8000\<close>,
  \<^verbatim>\<open>DI = 0x9000\<close>, no watchpoints, no breakpoints.
\<close>

definition S1_task :: Task where
  "S1_task = scenario_task 0xF3 0xA4 0xA000 1000 0x8000 0x9000 []"

definition rep_movsb :: Tracee where
  "rep_movsb = rep_string_tracee 2 1 False"

text \<open>The 32 bytes of the uninitialised \<^verbatim>\<open>InstructionBuf\<close> in the scenarios.\<close>

definition stale_stack :: "uint8_t list" where
  "stale_stack = replicate 32 0xCC"


section \<open>The specification's words\<close>

text \<open>
  The decoder as section 4.1 words it: the prefix bytes are the recognised prefixes in
  front of the fetched bytes, the opcode is the byte after them, and the operand size
  follows from the opcode's low bit and the prefixes seen.
\<close>

definition is_prefix_byte :: "uint8_t \<Rightarrow> bool" where
  "is_prefix_byte b = (b = 0x66 \<or> b = 0x48 \<or> b = 0xF2 \<or> b = 0xF3)"

definition fetched_bytes :: "InstructionBuf \<Rightarrow> uint8_t list" where
  "fetched_bytes code = take (nat (code_buf_len code)) (code_buf code)"

definition prefix_bytes :: "InstructionBuf \<Rightarrow> uint8_t list" where
  "prefix_bytes code = takeWhile is_prefix_byte (fetched_bytes code)"

definition opcode_byte :: "InstructionBuf \<Rightarrow> uint8_t" where
  "opcode_byte code = code_buf code ! List.length (prefix_bytes code)"

definition spec_operand_size :: "InstructionBuf \<Rightarrow> int" where
  "spec_operand_size code =
     (if opcode_byte code AND 1 = 0 then 1
      else if 0x48 \<in> set (prefix_bytes code) then 8
      else if 0x66 \<in> set (prefix_bytes code) then 2
      else 4)"


text \<open>
  Instruction buffers on x86_64: \<^verbatim>\<open>66 F3 A5\<close> (a \<open>0x66\<close> prefix without REX.W),
  \<^verbatim>\<open>66 F3 48 A5\<close> (both prefixes), each followed by \<^verbatim>\<open>NOP\<close>s with all 32 bytes fetched, and
  a short read that fetched the single byte \<^verbatim>\<open>F3\<close> in front of \<open>stale\<close>, the bytes the
  array held before.
\<close>

definition buf_operand_prefix :: InstructionBuf where
  "buf_operand_prefix =
     \<lparr>arch = x86_64, code_buf = [0x66, 0xF3, 0xA5] @ replicate 29 0x90, code_buf_len = 32\<rparr>"

definition buf_both_prefixes :: InstructionBuf where
  "buf_both_prefixes =
     \<lparr>arch = x86_64, code_buf = [0x66, 0xF3, 0x48, 0xA5] @ replicate 28 0x90, code_buf_len = 32\<rparr>"

definition buf_prefix_only :: "uint8_t \<Rightarrow> uint8_t list \<Rightarrow> InstructionBuf" where
  "buf_prefix_only stale0 stale =
     \<lparr>arch = x86_64, code_buf = 0xF3 # stale0 # stale, code_buf_len = 1\<rparr>"

text \<open>
  The bound against the target states as section 4.3 words it: starting from
  \<open>cur_cx - 1\<close>, every state at the entry IP with \<open>0 < cx < cur_cx\<close> and every state at
  the IP after the instruction with \<open>cx < cur_cx\<close> tightens the bound to at most
  \<open>cur_cx - cx - 1\<close>; all other states are ignored.
\<close>

definition state_tightens :: "remote_ptr \<Rightarrow> DecodedInstruction \<Rightarrow> uintptr_t \<Rightarrow> Registers \<Rightarrow> bool" where
  "state_tightens entry_ip decoded cur_cx s =
     ((ip s = entry_ip \<and> cx s \<noteq> 0 \<and> cx s < cur_cx) \<or>
      (ip s = entry_ip + word_of_int (length' decoded) \<and> cx s < cur_cx))"

definition spec_bound_for_states ::
  "remote_ptr \<Rightarrow> DecodedInstruction \<Rightarrow> uintptr_t \<Rightarrow> Registers list \<Rightarrow> uintptr_t" where
  "spec_bound_for_states entry_ip decoded cur_cx states =
     Min (insert (cur_cx - 1)
            ((\<lambda>s. cur_cx - cx s - 1) ` {s \<in> set states. state_tightens entry_ip decoded cur_cx s}))"

text \<open>
  Scenario S4: a task at a \<^verbatim>\<open>rep cmpsb\<close> with \<^verbatim>\<open>CX = 200\<close>, and one target state at the same IP
  with \<^verbatim>\<open>cx = 50\<close>.
\<close>

definition S4_state :: Registers where
  "S4_state = \<lparr>ip = 0x1000, cx = 50, si = 0x8000, di = 0x9000, df_flag = False, other_regs = []\<rparr>"

definition S4_task :: Task where
  "S4_task = scenario_task 0xF3 0xA6 0xA000 200 0x8000 0x9000 []"

definition rep_cmpsb_decoded :: DecodedInstruction where
  "rep_cmpsb_decoded = \<lparr>operand_size = 1, length' = 2, modifies_flags = True\<rparr>"


text \<open>A decoded \<^verbatim>\<open>rep stosb\<close> and a four-byte write watchpoint, for the examples.\<close>

definition rep_stosb_decoded :: DecodedInstruction where
  "rep_stosb_decoded = \<lparr>operand_size = 1, length' = 2, modifies_flags = False\<rparr>"

definition watch_0x9400 :: WatchConfig where
  "watch_0x9400 = \<lparr>addr = 0x9400, num_bytes = 4, kind = WATCH_WRITE\<rparr>"

text \<open>
  Scenario S1 after the trial single-step, what the decoder is to yield for it, and the
  task once the traps of the batched phase are installed.
\<close>

definition S1_after_trial_step :: Task where
  "S1_after_trial_step = resume_execution rep_movsb RESUME_SINGLESTEP S1_task"

definition rep_movsb_decoded :: DecodedInstruction where
  "rep_movsb_decoded = \<lparr>operand_size = 1, length' = 2, modifies_flags = False\<rparr>"

definition S1_traps_installed :: Task where
  "S1_traps_installed =
     S1_after_trial_step
       \<lparr>vm := \<lparr>breakpoints = {#(0x1002, TRAP_BKPT_INTERNAL)#},
                 watchpoints = [\<lparr>addr = 0x9366, num_bytes = 1, kind = WATCH_READWRITE\<rparr>],
                 saved_watchpoints = [[]]\<rparr>\<rparr>"

text \<open>
  A tracee never increases \<^verbatim>\<open>CX\<close> when it is resumed: the assumption under which \<^verbatim>\<open>CX\<close>
  after the call can be compared with \<^verbatim>\<open>CX\<close> before it.
\<close>

definition cx_never_grows :: "Tracee \<Rightarrow> bool" where
  "cx_never_grows hw = (\<forall>how t. cx (fst (hw how t)) \<le> cx (regs t))"


definition user_watchpoint :: WatchConfig where
  "user_watchpoint = \<lparr>addr = 0x8800, num_bytes = 4, kind = WATCH_WRITE\<rparr>"

definition fault_task :: Task where
  "fault_task = scenario_task 0xF3 0xA4 0x9000 1000 0x8000 0x8FFF [user_watchpoint]"

definition short_task :: Task where
  "short_task = scenario_task 0xF3 0xA4 0xA000 2 0x8000 0x9000 []"

text \<open>The task at the point where the run on \<open>fault_task\<close> aborts.\<close>

definition fault_task_aborted :: Task where
  "fault_task_aborted =
     fault_task
       \<lparr>regs := \<lparr>ip = 0x1000, cx = 999, si = 0x8001, di = 0x9000, df_flag = False,
                   other_regs = []\<rparr>,
        pending_sig := SIGSEGV, debug_status := 0,
        vm := \<lparr>breakpoints = {#(0x1002, TRAP_BKPT_INTERNAL)#},
                 watchpoints = [\<lparr>addr = 0x9365, num_bytes = 1, kind = WATCH_READWRITE\<rparr>],
                 saved_watchpoints = [[user_watchpoint]]\<rparr>\<rparr>"

text \<open>
  A \<^verbatim>\<open>repe cmpsb\<close> (\<^verbatim>\<open>F3 A6\<close>) at \<open>0x1000\<close> comparing the bytes from \<open>0x8000\<close> with those from
  \<open>0x9000\<close>, which differ at offset 5: \<open>cmps_task (cmps_regs i c k) ds\<close> is the task
  with IP \<open>i\<close>, \<^verbatim>\<open>CX\<close> \<open>c\<close>, both pointers advanced by \<open>k\<close> and debug status \<open>ds\<close>.
\<close>

definition rep_cmpsb :: Tracee where
  "rep_cmpsb = rep_string_tracee 2 1 True"

definition cmps_regs :: "uintptr_t \<Rightarrow> uintptr_t \<Rightarrow> uintptr_t \<Rightarrow> Registers" where
  "cmps_regs i c k =
     \<lparr>ip = i, cx = c, si = 0x8000 + k, di = 0x9000 + k, df_flag = False, other_regs = []\<rparr>"

definition cmps_task :: "Registers \<Rightarrow> uintptr_t \<Rightarrow> Task" where
  "cmps_task r ds =
     \<lparr>task_arch = x86_64, regs = r, pending_sig = SIGTRAP, debug_status = ds,
      vm = \<lparr>breakpoints = {#}, watchpoints = [], saved_watchpoints = []\<rparr>,
      memory = (scenario_memory 0xF3 0xA6 0xA000)(0x9005 := Some 1)\<rparr>"





definition stosb_task :: Task where
  "stosb_task =
     (scenario_task 0xF3 0xAA 0xA000 999 0xFFFFFFFFFFFFFFFF 0x9001 [watch_0x9400])
       \<lparr>pending_sig := SIGTRAP, debug_status := DS_SINGLESTEP\<rparr>"

text \<open>
  A tracee that keeps a note of the watchpoints it is continued under: it behaves as
  \<open>hw\<close>, and on every continue it appends the addresses of the watchpoints installed at
  that moment to \<open>other_regs\<close>, registers the routine never names. What the routine has
  installed whenever it continues the tracee can so be read off the registers it returns.
\<close>

definition watch_probe :: "Tracee \<Rightarrow> Tracee" where
  "watch_probe hw how t =
     (case hw how t of
        (r, sig, ds) \<Rightarrow>
          (case how of
             RESUME_SINGLESTEP \<Rightarrow> (r, sig, ds)
           | RESUME_CONT \<Rightarrow>
               (r\<lparr>other_regs := other_regs r @ map addr (watchpoints (vm t))\<rparr>, sig, ds)))"

section \<open>Properties\<close>

subsection \<open>The decoder\<close>

lemma drop_fetched_Cons:
  assumes "i < code_buf_len code" "read_code_buf code i = Some b"
  shows "drop (nat i) (fetched_bytes code) = b # drop (nat (i + 1)) (fetched_bytes code)"
proof -
  from assms have i0: "0 \<le> i" and il: "nat i < List.length (code_buf code)"
    and b: "b = code_buf code ! nat i"
    by (auto simp: read_code_buf_def split: if_splits)
  have lt: "nat i < List.length (fetched_bytes code)"
    using assms(1) i0 il by (simp add: fetched_bytes_def)
  have "fetched_bytes code ! nat i = b"
    using assms(1) i0 by (simp add: fetched_bytes_def b)
  moreover have "nat (i + 1) = Suc (nat i)" using i0 by simp
  ultimately show ?thesis using Cons_nth_drop_Suc [OF lt] by simp
qed

lemma scan_prefixes_Scanned:
  "scan_prefixes code i opnd rep rexw = Scanned s \<Longrightarrow> 0 \<le> i \<Longrightarrow>
     scan_i s = i + int (List.length (takeWhile is_prefix_byte (drop (nat i) (fetched_bytes code)))) \<and>
     found_operand_prefix s = (opnd \<or> 0x66 \<in> set (takeWhile is_prefix_byte (drop (nat i) (fetched_bytes code)))) \<and>
     found_REXW_prefix s = (rexw \<or> 0x48 \<in> set (takeWhile is_prefix_byte (drop (nat i) (fetched_bytes code)))) \<and>
     found_REP_prefix s = (rep \<or> 0xF2 \<in> set (takeWhile is_prefix_byte (drop (nat i) (fetched_bytes code)))
                               \<or> 0xF3 \<in> set (takeWhile is_prefix_byte (drop (nat i) (fetched_bytes code)))) \<and>
     (0x48 \<in> set (takeWhile is_prefix_byte (drop (nat i) (fetched_bytes code))) \<longrightarrow> arch code = x86_64)"
proof (induction code i opnd rep rexw rule: scan_prefixes.induct)
  case (1 code i opnd rep rexw)
  show ?case
  proof (cases "i < code_buf_len code")
    case False
    then have "drop (nat i) (fetched_bytes code) = []"
      using "1.prems"(2) by (simp add: fetched_bytes_def)
    with False "1.prems" show ?thesis
      by (auto simp: scan_prefixes.simps [of code i])
  next
    case True
    then obtain b where b: "read_code_buf code i = Some b"
      using "1.prems"(1) by (cases "read_code_buf code i") (auto simp: scan_prefixes.simps [of code i])
    note dr = drop_fetched_Cons [OF True b]
    have i1: "0 \<le> i + 1" using "1.prems"(2) by simp
    consider (p66) "b = 0x66" | (p48) "b = 0x48" "arch code = x86_64" | (pF) "b = 0xF2 \<or> b = 0xF3"
      | (op) "\<not> is_prefix_byte b"
      using "1.prems"(1) True b
      by (auto simp: scan_prefixes.simps [of code i] is_prefix_byte_def split: if_splits)
    then show ?thesis
    proof cases
      case p66
      with "1.prems"(1) True b have "scan_prefixes code (i + 1) True rep rexw = Scanned s"
        by (simp add: scan_prefixes.simps [of code i])
      from "1.IH"(1) [OF True b p66 this i1] show ?thesis
        using p66 dr by (auto simp: is_prefix_byte_def)
    next
      case p48
      with "1.prems"(1) True b have "scan_prefixes code (i + 1) opnd rep True = Scanned s"
        by (simp add: scan_prefixes.simps [of code i])
      from "1.IH"(2) [OF True b _ p48(1) p48(2) this i1] show ?thesis
        using p48 dr by (auto simp: is_prefix_byte_def)
    next
      case pF
      with "1.prems"(1) True b have "scan_prefixes code (i + 1) opnd True rexw = Scanned s"
        by (auto simp: scan_prefixes.simps [of code i])
      from "1.IH"(3) [OF True b _ _ pF this i1] show ?thesis
        using pF dr by (auto simp: is_prefix_byte_def)
    next
      case op
      then have "takeWhile is_prefix_byte (drop (nat i) (fetched_bytes code)) = []"
        using dr by simp
      moreover have "scan_i s = i \<and> found_operand_prefix s = opnd \<and> found_REXW_prefix s = rexw
                     \<and> found_REP_prefix s = rep"
        using "1.prems"(1) True b op
        by (auto simp: scan_prefixes.simps [of code i] is_prefix_byte_def split: if_splits)
      ultimately show ?thesis by simp
    qed
  qed
qed

text \<open>
  C9: whenever the decoder succeeds, the operand size is 1 when the low bit of the opcode
  byte is 0, and otherwise 8 if a REX.W prefix (\<open>0x48\<close>, accepted on x86_64 only) was
  seen, else 2 if a \<open>0x66\<close> prefix was seen, else 4; the length is the number of prefix
  bytes plus 1. The opcode byte is the byte at which the scan of the prefixes stopped.
\<close>

theorem decode_operand_size_and_length:
  assumes "decode_x86_string_instruction code = Decoded d"
  shows "operand_size d = spec_operand_size code \<and>
         length' d = int (List.length (prefix_bytes code)) + 1 \<and>
         (0x48 \<in> set (prefix_bytes code) \<longrightarrow> arch code = x86_64)"
proof -
  from assms obtain s b where s: "scan_prefixes code 0 False False False = Scanned s"
    and b: "read_code_buf code (scan_i s) = Some b"
    and d: "d = \<lparr>operand_size = (if b AND 1 \<noteq> 0 then (if found_REXW_prefix s then 8
                                else if found_operand_prefix s then 2 else 4) else 1),
                 length' = scan_i s + 1, modifies_flags = scan_modifies_flags s\<rparr>"
    by (auto simp: decode_x86_string_instruction_def split: scan_result.splits if_splits option.splits)
  from scan_prefixes_Scanned [OF s] have
    i: "scan_i s = int (List.length (prefix_bytes code))"
    and o: "found_operand_prefix s = (0x66 \<in> set (prefix_bytes code))"
    and x: "found_REXW_prefix s = (0x48 \<in> set (prefix_bytes code))"
    and a: "0x48 \<in> set (prefix_bytes code) \<longrightarrow> arch code = x86_64"
    by (simp_all add: prefix_bytes_def)
  from b i have "b = opcode_byte code"
    by (auto simp: read_code_buf_def opcode_byte_def split: if_splits)
  with d i o x a show ?thesis
    by (simp add: spec_operand_size_def)
qed

lemma decode_buf_operand_prefix:
  "decode_x86_string_instruction buf_operand_prefix =
     Decoded \<lparr>operand_size = 2, length' = 3, modifies_flags = False\<rparr>"
  by (simp add: buf_operand_prefix_def decode_x86_string_instruction_def scan_prefixes.simps
      read_code_buf_def)

lemma decode_buf_both_prefixes:
  "decode_x86_string_instruction buf_both_prefixes =
     Decoded \<lparr>operand_size = 8, length' = 4, modifies_flags = False\<rparr>"
  by (simp add: buf_both_prefixes_def decode_x86_string_instruction_def scan_prefixes.simps
      read_code_buf_def)

theorem decode_operand_size_and_length_witness:
  "decode_x86_string_instruction buf_operand_prefix =
     Decoded \<lparr>operand_size = 2, length' = 3, modifies_flags = False\<rparr> \<and>
   spec_operand_size buf_operand_prefix = 2 \<and>
   List.length (prefix_bytes buf_operand_prefix) = 2"
  using decode_operand_size_and_length [OF decode_buf_operand_prefix]
    decode_buf_operand_prefix
  by simp

text \<open>
  C10: the decoder is to return true only when one of the ten string opcodes is among the
  fetched bytes, and to look at no byte beyond them. The code does neither: for a read
  that fetched the single byte \<^verbatim>\<open>F3\<close>, the loop ends with \<^verbatim>\<open>i = 1\<close> and \<^verbatim>\<open>done\<close> false, line 81
  passes because a REP prefix was found, line 86 reads the stale byte \<^verbatim>\<open>code_buf[1]\<close>,
  and the decoder returns true with length 2 and an operand size taken from that byte.
\<close>

theorem decode_prefix_only_returns_true:
  "fetched_bytes (buf_prefix_only stale0 stale) = [0xF3] \<and>
   decode_x86_string_instruction (buf_prefix_only stale0 stale) =
     Decoded \<lparr>operand_size = (if stale0 AND 1 \<noteq> 0 then 4 else 1), length' = 2,
              modifies_flags = False\<rparr>"
  by (simp add: buf_prefix_only_def fetched_bytes_def decode_x86_string_instruction_def
      scan_prefixes.simps read_code_buf_def)

subsection \<open>The bound against the target states\<close>

lemma Min_insert_min:
  fixes a :: "'a :: linorder"
  assumes "finite A"
  shows "Min (insert (min a b) A) = Min (insert a (insert b A))"
proof (cases "A = {}")
  case True
  then show ?thesis by simp
next
  case False
  with assms show ?thesis by (simp add: min.assoc)
qed

lemma bound_iterations_for_states_Min:
  "iterations \<le> cur_cx - 1 \<Longrightarrow>
   bound_iterations_for_states entry_ip decoded cur_cx states iterations =
     Min (insert iterations
            ((\<lambda>s. cur_cx - cx s - 1) ` {s \<in> set states. state_tightens entry_ip decoded cur_cx s}))"
proof (induction states arbitrary: iterations)
  case Nil
  then show ?case by simp
next
  case (Cons s states)
  let ?f = "\<lambda>s. cur_cx - cx s - 1"
  let ?T = "{s \<in> set states. state_tightens entry_ip decoded cur_cx s}"
  have fin: "finite (?f ` ?T)" by simp
  show ?case
  proof (cases "state_tightens entry_ip decoded cur_cx s")
    case True
    then have set: "{x \<in> set (s # states). state_tightens entry_ip decoded cur_cx x} = insert s ?T"
      by auto
    have le: "min iterations (?f s) \<le> cur_cx - 1"
      using Cons.prems by (simp add: min.coboundedI1)
    have step: "bound_iterations_for_states entry_ip decoded cur_cx (s # states) iterations =
        bound_iterations_for_states entry_ip decoded cur_cx states (min iterations (?f s))"
    proof (cases "ip s = entry_ip \<and> cx s = 0")
      case False
      with True show ?thesis
        by (auto simp: state_tightens_def Let_def not_le)
    next
      case z: True
      then have "min iterations (?f s) = iterations" using Cons.prems by (simp add: min_def)
      with z show ?thesis by simp
    qed
    have "Min (insert (min iterations (?f s)) (?f ` ?T)) = Min (insert iterations (insert (?f s) (?f ` ?T)))"
      using fin by (rule Min_insert_min)
    then show ?thesis
      unfolding step Cons.IH [OF le] set by simp
  next
    case False
    then have set: "{x \<in> set (s # states). state_tightens entry_ip decoded cur_cx x} = ?T"
      by auto
    have step: "bound_iterations_for_states entry_ip decoded cur_cx (s # states) iterations =
        bound_iterations_for_states entry_ip decoded cur_cx states iterations"
      using False by (auto simp: state_tightens_def Let_def not_le)
    show ?thesis unfolding step Cons.IH [OF Cons.prems] set by simp
  qed
qed

lemma bound_iterations_for_states_from_cx:
  "bound_iterations_for_states entry_ip decoded cur_cx states (cur_cx - 1) =
     spec_bound_for_states entry_ip decoded cur_cx states"
  unfolding spec_bound_for_states_def
  by (rule bound_iterations_for_states_Min) simp

text \<open>
  C3: a bounding round with a current \<^verbatim>\<open>CX\<close> value \<open>cur_cx > 0\<close> (lines 188-223) starts the
  bound at \<open>cur_cx - 1\<close>; a state at the current IP is skipped when its \<open>cx\<close> is 0 or at
  least \<open>cur_cx\<close> and otherwise tightens the bound to \<open>min bound (cur_cx - cx - 1)\<close>; a
  state at the IP after the instruction is skipped when its \<open>cx\<close> is at least \<open>cur_cx\<close>
  and otherwise tightens likewise; states at any other IP are ignored. So the bound the
  round hands on to the watchpoint bounding, and its result when there are no watchpoints,
  is the least of \<open>cur_cx - 1\<close> and the values \<open>cur_cx - cx - 1\<close> of the tightening
  states. For scenario S4 the round yields \<open>min 199 (200 - 50 - 1) = 149\<close>.
\<close>

theorem compute_iterations_states_bound:
  assumes "cx (regs t) \<noteq> 0"
  shows "compute_iterations entry_ip decoded t states =
           (case bound_iterations_for_watchpoints t decoded (watchpoints (vm t))
                   (spec_bound_for_states entry_ip decoded (cx (regs t)) states) of
              Inl a \<Rightarrow> Inl a
            | Inr iterations \<Rightarrow> Inr (Some iterations)) \<and>
         (watchpoints (vm t) = [] \<longrightarrow>
            compute_iterations entry_ip decoded t states =
              Inr (Some (spec_bound_for_states entry_ip decoded (cx (regs t)) states)))"
  using assms
  by (simp add: compute_iterations_def Let_def all_watchpoints_def
      bound_iterations_for_states_from_cx)

theorem compute_iterations_S4:
  "cx (regs S4_task) = 200 \<and> ip S4_state = ip (regs S4_task) \<and> cx S4_state = 50 \<and>
   compute_iterations (ip (regs S4_task)) rep_cmpsb_decoded S4_task [S4_state] = Inr (Some 149) \<and>
   (149 :: uintptr_t) = min 199 (200 - 50 - 1)"
  using compute_iterations_states_bound [of S4_task "ip (regs S4_task)" rep_cmpsb_decoded
          "[S4_state]"]
  by (simp add: S4_task_def scenario_task_def S4_state_def rep_cmpsb_decoded_def
      spec_bound_for_states_def state_tightens_def)

subsection \<open>The bound against the watchpoints\<close>

lemma uint_plus_int:
  fixes a :: "64 word"
  assumes "0 \<le> n" "uint a + n < 2 ^ 64"
  shows "uint (a + word_of_int n) = uint a + n"
proof -
  have "uint (a + word_of_int n) = (uint a + n) mod 2 ^ 64"
    by (simp add: uint_word_ariths uint_word_of_int take_bit_eq_mod mod_add_right_eq)
  also have "\<dots> = uint a + n"
    using assms by (simp add: add_nonneg_nonneg)
  finally show ?thesis .
qed

lemma uint_plus_int_wraps:
  fixes a :: "64 word"
  assumes "0 \<le> n" "n < 2 ^ 64" "2 ^ 64 \<le> uint a + n"
  shows "uint (a + word_of_int n) = uint a + n - 2 ^ 64"
proof -
  have "uint (a + word_of_int n) = (uint a + n) mod 2 ^ 64"
    by (simp add: uint_word_ariths uint_word_of_int take_bit_eq_mod mod_add_right_eq)
  also have "\<dots> = (uint a + n - 2 ^ 64) mod 2 ^ 64"
    by (rule minus_mod_self2 [symmetric])
  also have "\<dots> = uint a + n - 2 ^ 64"
  proof (rule mod_pos_pos_trivial)
    show "0 \<le> uint a + n - 2 ^ 64" using assms by simp
    have "uint a < 2 ^ 64" using uint_lt2p [of a] by simp
    with assms show "uint a + n - 2 ^ 64 < 2 ^ 64" by simp
  qed
  finally show ?thesis .
qed



lemma mem_intersect_no_wrap:
  assumes "0 < s1" "0 < s2" "uint a1 + s1 < 2 ^ 64" "uint a2 + s2 < 2 ^ 64"
  shows "mem_intersect a1 s1 a2 s2 = Inr (uint a1 < uint a2 + s2 \<and> uint a2 < uint a1 + s1)"
proof -
  have e1: "uint (a1 + word_of_int s1) = uint a1 + s1"
    using assms by (intro uint_plus_int) simp_all
  have e2: "uint (a2 + word_of_int s2) = uint a2 + s2"
    using assms by (intro uint_plus_int) simp_all
  show ?thesis
    unfolding mem_intersect_def max_def min_def word_less_def word_le_def
    using assms(1,2) by (auto simp: e1 e2)
qed

lemma mem_intersect_wrap1:
  assumes "0 < s1" "s1 < 2 ^ 64" "2 ^ 64 \<le> uint a1 + s1"
  shows "mem_intersect a1 s1 a2 s2 = Inl (AssertionFailed 97)"
proof -
  have "uint (a1 + word_of_int s1) = uint a1 + s1 - 2 ^ 64"
    using assms by (intro uint_plus_int_wraps) simp_all
  then have "\<not> a1 < a1 + word_of_int s1"
    using assms(2) by (simp add: word_less_def)
  then show ?thesis by (simp add: mem_intersect_def)
qed

lemma mem_intersect_wrap2:
  assumes "0 < s1" "uint a1 + s1 < 2 ^ 64" "0 < s2" "s2 < 2 ^ 64" "2 ^ 64 \<le> uint a2 + s2"
  shows "mem_intersect a1 s1 a2 s2 = Inl (AssertionFailed 98)"
proof -
  have "uint (a1 + word_of_int s1) = uint a1 + s1"
    using assms by (intro uint_plus_int) simp_all
  then have 1: "a1 < a1 + word_of_int s1"
    using assms(1) by (simp add: word_less_def)
  have "uint (a2 + word_of_int s2) = uint a2 + s2 - 2 ^ 64"
    using assms by (intro uint_plus_int_wraps) simp_all
  then have "\<not> a2 < a2 + word_of_int s2"
    using assms(4) by (simp add: word_less_def)
  with 1 show ?thesis by (simp add: mem_intersect_def)
qed






text \<open>
  When the assertions of \<^verbatim>\<open>mem_intersect\<close> fail, and when a watchpoint behind the register
  leaves the bound as it is: with an operand size of 1, 2, 4 or 8 and a watchpoint of at
  least one byte, a register operand range that wraps fails the assertion of line 97, a
  watchpoint range that wraps fails that of line 98, and when neither wraps a watchpoint
  wholly behind the register in the direction of travel leaves the bound unchanged.
\<close>

lemma bound_iterations_for_watchpoint_wraparound:
  assumes sz: "operand_size decoded \<in> {1, 2, 4, 8}"
    and n: "0 < num_bytes watch" "num_bytes watch < 2 ^ 31"
  shows "(2 ^ 64 \<le> uint reg + operand_size decoded \<longrightarrow>
            bound_iterations_for_watchpoint t reg decoded watch iterations
              = Inl (AssertionFailed 97)) \<and>
         (uint reg + operand_size decoded < 2 ^ 64 \<and>
          2 ^ 64 \<le> uint (addr watch) + num_bytes watch \<longrightarrow>
            bound_iterations_for_watchpoint t reg decoded watch iterations
              = Inl (AssertionFailed 98)) \<and>
         (uint reg + operand_size decoded < 2 ^ 64 \<and>
          uint (addr watch) + num_bytes watch < 2 ^ 64 \<and>
          (if df_flag (regs t) then uint reg + operand_size decoded \<le> uint (addr watch)
           else uint (addr watch) + num_bytes watch \<le> uint reg) \<longrightarrow>
            bound_iterations_for_watchpoint t reg decoded watch iterations = Inr iterations)"
proof -
  from sz have sz0: "0 < operand_size decoded" and sz64: "operand_size decoded < 2 ^ 64"
    by auto
  from n have n64: "num_bytes watch < 2 ^ 64" by simp
  show ?thesis
  proof (intro conjI impI)
    assume "2 ^ 64 \<le> uint reg + operand_size decoded"
    with sz0 sz64 have "mem_intersect reg (operand_size decoded) (addr watch) (num_bytes watch)
        = Inl (AssertionFailed 97)"
      by (intro mem_intersect_wrap1)
    then show "bound_iterations_for_watchpoint t reg decoded watch iterations
        = Inl (AssertionFailed 97)"
      by (simp add: bound_iterations_for_watchpoint_def)
  next
    assume "uint reg + operand_size decoded < 2 ^ 64 \<and>
            2 ^ 64 \<le> uint (addr watch) + num_bytes watch"
    with sz0 n(1) n64 have "mem_intersect reg (operand_size decoded) (addr watch) (num_bytes watch)
        = Inl (AssertionFailed 98)"
      by (intro mem_intersect_wrap2) simp_all
    then show "bound_iterations_for_watchpoint t reg decoded watch iterations
        = Inl (AssertionFailed 98)"
      by (simp add: bound_iterations_for_watchpoint_def)
  next
    assume a: "uint reg + operand_size decoded < 2 ^ 64 \<and>
          uint (addr watch) + num_bytes watch < 2 ^ 64 \<and>
          (if df_flag (regs t) then uint reg + operand_size decoded \<le> uint (addr watch)
           else uint (addr watch) + num_bytes watch \<le> uint reg)"
    with sz0 n(1) have mi: "mem_intersect reg (operand_size decoded) (addr watch) (num_bytes watch)
        = Inr (uint reg < uint (addr watch) + num_bytes watch \<and>
               uint (addr watch) < uint reg + operand_size decoded)"
      by (intro mem_intersect_no_wrap) simp_all
    show "bound_iterations_for_watchpoint t reg decoded watch iterations = Inr iterations"
    proof (cases "df_flag (regs t)")
      case True
      with a sz0 have "reg < addr watch" and "\<not> uint reg < uint (addr watch) + num_bytes watch
          \<or> \<not> uint (addr watch) < uint reg + operand_size decoded"
        by (auto simp: word_less_def)
      with True show ?thesis
        by (auto simp: bound_iterations_for_watchpoint_def mi Let_def)
    next
      case False
      with a n(1) have "addr watch < reg" and "\<not> uint reg < uint (addr watch) + num_bytes watch
          \<or> \<not> uint (addr watch) < uint reg + operand_size decoded"
        by (auto simp: word_less_def)
      with False show ?thesis
        by (auto simp: bound_iterations_for_watchpoint_def mi Let_def)
    qed
  qed
qed

text \<open>
  C8: ranges that would wrap around the address space are to be treated as unreachable,
  the bound left unchanged, and the bounding is never to abort on them. The code aborts:
  \<open>stosb_task\<close> is a task after the trial step of a \<^verbatim>\<open>rep stosb\<close>, which never uses \<^verbatim>\<open>SI\<close>,
  with \<^verbatim>\<open>SI = 2^64 - 1\<close> and one user watchpoint. The loop of lines 236-241 bounds through
  \<^verbatim>\<open>SI\<close> all the same (lines 233-235: an unnecessary bound only costs a few more
  single-steps), \<open>[SI, SI + 1)\<close> wraps, and the assertion of line 97 fails, whatever the
  tracee. With \<^verbatim>\<open>SI = 2^64 - 2\<close> the bound is left at 998.
\<close>

theorem wrapping_unused_register_aborts:
  "si (regs stosb_task) = 0xFFFFFFFFFFFFFFFF \<and>
   bound_iterations_for_watchpoint stosb_task (si (regs stosb_task)) rep_stosb_decoded
     watch_0x9400 998 = Inl (AssertionFailed 97) \<and>
   fast_forward_loop hw 0x1000 rep_stosb_decoded stosb_task [] [] =
     Inl (AssertionFailed 97, stosb_task) \<and>
   bound_iterations_for_watchpoints (stosb_task\<lparr>regs := (regs stosb_task)\<lparr>si := 0xFFFFFFFFFFFFFFFE\<rparr>\<rparr>)
     rep_stosb_decoded [watch_0x9400] 998 = Inr 998"
proof -
  have b: "bound_iterations_for_watchpoint stosb_task 0xFFFFFFFFFFFFFFFF rep_stosb_decoded
     watch_0x9400 998 = Inl (AssertionFailed 97)"
    by (simp add: bound_iterations_for_watchpoint_def mem_intersect_def rep_stosb_decoded_def
        watch_0x9400_def)
  have s: "si (regs stosb_task) = 0xFFFFFFFFFFFFFFFF" "cx (regs stosb_task) = 999"
    "watchpoints (vm stosb_task) = [watch_0x9400]"
    by (simp_all add: stosb_task_def scenario_task_def)
  have c: "compute_iterations 0x1000 rep_stosb_decoded stosb_task [] = Inl (AssertionFailed 97)"
    by (simp add: compute_iterations_def all_watchpoints_def s b)
  have l: "fast_forward_loop hw 0x1000 rep_stosb_decoded stosb_task [] [] =
     Inl (AssertionFailed 97, stosb_task)"
    by (subst fast_forward_loop.simps) (simp add: fast_forward_pass_def c)
  have n: "bound_iterations_for_watchpoints
             (stosb_task\<lparr>regs := (regs stosb_task)\<lparr>si := 0xFFFFFFFFFFFFFFFE\<rparr>\<rparr>)
             rep_stosb_decoded [watch_0x9400] 998 = Inr 998"
    by (simp add: bound_iterations_for_watchpoint_def mem_intersect_def ptr_diff_def
        signed_divide_int_def stosb_task_def scenario_task_def rep_stosb_decoded_def
        watch_0x9400_def)
  from b s l n show ?thesis by simp
qed

subsection \<open>Scenario S1\<close>

lemma unat_inc:
  fixes x y :: "64 word"
  assumes "unat x < unat y"
  shows "unat (x + 1) = unat x + 1"
proof -
  have "unat y < 2 ^ 64" using unsigned_less [of y, where 'a = nat] by simp
  with assms have "unat x + 1 < 2 ^ 64" by simp
  then show ?thesis by (simp add: unat_word_ariths)
qed

lemma ranges_overlap_byte: "ranges_overlap a 1 w 1 = (a = w)"
  by (auto simp: ranges_overlap_def word_uint_eq_iff)

lemma continue_string_reaches_watchpoint:
  assumes wp: "watchpoints (vm t) = [\<lparr>addr = w, num_bytes = 1, kind = k\<rparr>]"
    and mapped: "\<forall>a. lo \<le> unat a \<and> unat a < hi \<longrightarrow> memory t a \<noteq> None"
  shows "\<not> df_flag r \<Longrightarrow> unat (di r) + n = unat w \<Longrightarrow> n + 1 < unat (cx r) \<Longrightarrow>
         unat (si r) + n < unat w \<Longrightarrow> lo \<le> unat (si r) \<Longrightarrow> lo \<le> unat (di r) \<Longrightarrow> unat w < hi \<Longrightarrow>
         continue_string 2 1 False t r =
           (r\<lparr>cx := cx r - of_nat (n + 1), si := si r + of_nat (n + 1),
              di := di r + of_nat (n + 1)\<rparr>, SIGTRAP, 1)"
proof (induction n arbitrary: r)
  case 0
  then have diw: "di r = w" and siw: "si r \<noteq> w" by (auto simp: word_unat_eq_iff)
  from 0 have cx0: "cx r \<noteq> 0" and cx1: "cx r - 1 \<noteq> 0"
    by (auto simp: unat_eq_0 [symmetric] unat_minus_one simp del: unat_eq_0)
  from 0 mapped have m: "memory t (si r) \<noteq> None" "memory t (di r) \<noteq> None" by auto
  have touch: "touches_watchpoint t r 1"
    by (simp add: touches_watchpoint_def wp ranges_overlap_byte diw)
  show ?case
    using cx0 cx1 m touch 0(1)
    by (subst continue_string.simps) (auto simp: string_iteration_def)
next
  case (Suc n)
  then have diw: "di r \<noteq> w" and siw: "si r \<noteq> w" by auto
  from Suc.prems have cx0: "cx r \<noteq> 0" and cx1: "cx r - 1 \<noteq> 0"
    by (auto simp: unat_eq_0 [symmetric] unat_minus_one simp del: unat_eq_0)
  from Suc.prems mapped have m: "memory t (si r) \<noteq> None" "memory t (di r) \<noteq> None" by auto
  have touch: "\<not> touches_watchpoint t r 1"
    by (simp add: touches_watchpoint_def wp ranges_overlap_byte diw siw)
  let ?r = "r\<lparr>cx := cx r - 1, si := si r + 1, di := di r + 1\<rparr>"
  have it: "string_iteration 2 1 False t r = ?r"
    using cx1 Suc.prems(1) by (simp add: string_iteration_def)
  have d1: "unat (di r + 1) = unat (di r) + 1"
    using Suc.prems(2) by (intro unat_inc [of _ w]) simp
  have s1: "unat (si r + 1) = unat (si r) + 1"
    using Suc.prems(4) by (intro unat_inc [of _ w]) simp
  have c1: "unat (cx r - 1) = unat (cx r) - 1"
    using cx0 by (simp add: unat_minus_one)
  have step: "continue_string 2 1 False t r = continue_string 2 1 False t ?r"
    using cx0 m touch by (subst continue_string.simps) (auto simp: it)
  have "continue_string 2 1 False t ?r =
          (?r\<lparr>cx := cx ?r - of_nat (n + 1), si := si ?r + of_nat (n + 1),
              di := di ?r + of_nat (n + 1)\<rparr>, SIGTRAP, 1)"
    using Suc.prems by (intro Suc.IH) (simp_all add: d1 s1 c1)
  with step show ?case by simp
qed


lemma singlestep_rep_movsb:
  assumes "cx (regs t) - 1 \<noteq> 0" "cx (regs t) \<noteq> 0" "watchpoints (vm t) = []"
    "memory t (si (regs t)) \<noteq> None" "memory t (di (regs t)) \<noteq> None" "\<not> df_flag (regs t)"
  shows "resume_execution (rep_string_tracee 2 1 False) RESUME_SINGLESTEP t =
           t\<lparr>regs := (regs t)\<lparr>cx := cx (regs t) - 1, si := si (regs t) + 1,
                                di := di (regs t) + 1\<rparr>,
             pending_sig := SIGTRAP, debug_status := DS_SINGLESTEP\<rparr>"
  using assms
  by (auto simp: resume_execution_def rep_string_tracee_def string_iteration_def
      touches_watchpoint_def Let_def)

lemma singlestep_remaining_rep_movsb:
  "ip (regs t) = e \<Longrightarrow> watchpoints (vm t) = [] \<Longrightarrow> \<not> df_flag (regs t) \<Longrightarrow>
   n < unat (cx (regs t)) \<Longrightarrow>
   lo \<le> unat (si (regs t)) \<Longrightarrow> unat (si (regs t)) + n < hi \<Longrightarrow>
   lo \<le> unat (di (regs t)) \<Longrightarrow> unat (di (regs t)) + n < hi \<Longrightarrow> hi \<le> 2 ^ 64 \<Longrightarrow>
   \<forall>a. lo \<le> unat a \<and> unat a < hi \<longrightarrow> memory t a \<noteq> None \<Longrightarrow>
   \<exists>t'. singlestep_remaining (rep_string_tracee 2 1 False) e t (of_nat n) = Inr t' \<and>
        regs t' = (regs t)\<lparr>cx := cx (regs t) - of_nat n, si := si (regs t) + of_nat n,
                            di := di (regs t) + of_nat n\<rparr>"
proof (induction n arbitrary: t)
  case 0
  then show ?case by (subst singlestep_remaining.simps) simp
next
  case (Suc n)
  let ?r = "(regs t)\<lparr>cx := cx (regs t) - 1, si := si (regs t) + 1, di := di (regs t) + 1\<rparr>"
  let ?t1 = "t\<lparr>regs := ?r, pending_sig := SIGTRAP, debug_status := DS_SINGLESTEP\<rparr>"
  let ?t2 = "t\<lparr>regs := ?r, pending_sig := SIGTRAP, debug_status := 0\<rparr>"
  from Suc.prems have cx0: "cx (regs t) \<noteq> 0" and cx1: "cx (regs t) - 1 \<noteq> 0"
    by (auto simp: unat_eq_0 [symmetric] unat_minus_one simp del: unat_eq_0)
  from Suc.prems have m: "memory t (si (regs t)) \<noteq> None" "memory t (di (regs t)) \<noteq> None"
    by auto
  have res: "resume_execution (rep_string_tracee 2 1 False) RESUME_SINGLESTEP t = ?t1"
    using cx0 cx1 m Suc.prems(2,3) by (intro singlestep_rep_movsb)
  have lt: "Suc n < 2 ^ 64"
    using Suc.prems(4) unsigned_less [of "cx (regs t)", where 'a = nat] by simp
  then have pos: "(0 :: 64 word) < of_nat (Suc n)"
    using of_nat_neq_0 [of "Suc n", where 'a = 64] by (simp add: word_gt_0 del: of_nat_Suc)
  have s1: "unat (si (regs t) + 1) = unat (si (regs t)) + 1"
    using Suc.prems(6,9) by (simp add: unat_word_ariths)
  have d1: "unat (di (regs t) + 1) = unat (di (regs t)) + 1"
    using Suc.prems(8,9) by (simp add: unat_word_ariths)
  have c1: "unat (cx (regs t) - 1) = unat (cx (regs t)) - 1"
    using cx0 by (simp add: unat_minus_one)
  have step: "singlestep_remaining (rep_string_tracee 2 1 False) e t (of_nat (Suc n)) =
              singlestep_remaining (rep_string_tracee 2 1 False) e ?t2 (of_nat n)"
    using pos Suc.prems(1)
    by (subst singlestep_remaining.simps)
       (simp add: res consume_debug_status_def SIGTRAP_def DS_SINGLESTEP_def
          DS_WATCHPOINT_ANY_def del: of_nat_Suc, simp)
  have "\<exists>t'. singlestep_remaining (rep_string_tracee 2 1 False) e ?t2 (of_nat n) = Inr t' \<and>
        regs t' = (regs ?t2)\<lparr>cx := cx (regs ?t2) - of_nat n, si := si (regs ?t2) + of_nat n,
                            di := di (regs ?t2) + of_nat n\<rparr>"
    using Suc.prems by (intro Suc.IH) (simp_all add: s1 d1 c1)
  with step show ?case by auto
qed


lemma scenario_memory_mapped:
  "\<forall>a. 0x8000 \<le> unat a \<and> unat a < 0xA000 \<longrightarrow> scenario_memory b0 b1 0xA000 a \<noteq> None"
  by (auto simp: scenario_memory_def word_le_nat_alt word_less_nat_alt)

lemma S1_trial:
  "S1_after_trial_step =
     S1_task\<lparr>regs := \<lparr>ip = 0x1000, cx = 999, si = 0x8001, di = 0x9001, df_flag = False,
                        other_regs = []\<rparr>,
             pending_sig := SIGTRAP, debug_status := DS_SINGLESTEP\<rparr>"
  unfolding S1_after_trial_step_def rep_movsb_def
  by (subst singlestep_rep_movsb)
     (simp_all add: S1_task_def scenario_task_def scenario_memory_def)

lemma S1_iterations:
  "compute_iterations 0x1000 rep_movsb_decoded S1_after_trial_step [] = Inr (Some 998)"
  by (simp add: S1_trial S1_task_def scenario_task_def compute_iterations_def
      all_watchpoints_def)



lemma decode_rep_byte_instruction:
  assumes "code_buf code = 0xF3 # op # rest" "2 \<le> code_buf_len code" "op = 0xA4 \<or> op = 0xA6"
  shows "decode_x86_string_instruction code =
           Decoded \<lparr>operand_size = 1, length' = 2, modifies_flags = (op = 0xA6)\<rparr>"
proof -
  have r0: "read_code_buf code 0 = Some 0xF3" and r1: "read_code_buf code 1 = Some op"
    using assms(1) by (simp_all add: read_code_buf_def)
  have "scan_prefixes code 0 False False False = scan_prefixes code 1 False True False"
    using assms(2) by (subst scan_prefixes.simps) (simp add: r0)
  also have "\<dots> = Scanned \<lparr>scan_i = 1, found_operand_prefix = False, found_REP_prefix = True,
                found_REXW_prefix = False, scan_modifies_flags = (op = 0xA6), scan_done = True\<rparr>"
    using assms(2,3) by (subst scan_prefixes.simps) (auto simp: r1)
  finally show ?thesis
    using assms(3) by (auto simp: decode_x86_string_instruction_def r1)
qed

lemma read_instruction_two_bytes:
  assumes "memory t a = Some b0" "memory t (a + 1) = Some b1"
  shows "\<exists>rest. code_buf (read_instruction uninit t a) = b0 # b1 # rest" 
    and "2 \<le> code_buf_len (read_instruction uninit t a)"
proof -
  have e: "read_bytes_fallible t a (Suc (Suc n)) =
             b0 # b1 # read_bytes_fallible t (a + 1 + 1) n" for n
    using assms by simp
  have n32: "(32 :: nat) = Suc (Suc 30)" by simp
  have "read_bytes_fallible t a 32 = b0 # b1 # read_bytes_fallible t (a + 1 + 1) 30"
    by (subst n32) (rule e)
  then show "\<exists>rest. code_buf (read_instruction uninit t a) = b0 # b1 # rest" 
    and "2 \<le> code_buf_len (read_instruction uninit t a)"
    by (simp_all add: read_instruction_def Let_def)
qed

lemma S1_decode:
  "decode_x86_string_instruction (read_instruction stale_stack S1_after_trial_step 0x1000) =
     Decoded rep_movsb_decoded"
proof -
  have m: "memory S1_after_trial_step 0x1000 = Some 0xF3"
    "memory S1_after_trial_step (0x1000 + 1) = Some 0xA4"
    by (simp_all add: S1_trial S1_task_def scenario_task_def scenario_memory_def)
  from read_instruction_two_bytes [OF m]
  obtain rest where "code_buf (read_instruction stale_stack S1_after_trial_step 0x1000)
        = 0xF3 # 0xA4 # rest"
    and "2 \<le> code_buf_len (read_instruction stale_stack S1_after_trial_step 0x1000)"
    by blast
  then show ?thesis
    using decode_rep_byte_instruction [of _ "0xA4" rest] by (simp add: rep_movsb_decoded_def)
qed


lemma S1_install:
  "install_fast_forward_traps 0x1000 rep_movsb_decoded 1
     (word_of_int (operand_size rep_movsb_decoded) * (998 - 1) - BYTES_COALESCED)
     S1_after_trial_step = Inr S1_traps_installed"
  by (simp add: install_fast_forward_traps_def S1_traps_installed_def S1_trial S1_task_def
      scenario_task_def rep_movsb_decoded_def BYTES_COALESCED_def save_watchpoints_def
      remove_all_watchpoints_def add_watchpoint_def add_breakpoint_def scenario_memory_def)

lemma S1_continue:
  "resume_execution rep_movsb RESUME_CONT S1_traps_installed =
     S1_traps_installed
       \<lparr>regs := \<lparr>ip = 0x1000, cx = 129, si = 0x8367, di = 0x9367, df_flag = False,
                   other_regs = []\<rparr>,
        pending_sig := SIGTRAP, debug_status := 1\<rparr>"
proof -
  let ?t = S1_traps_installed
  have "continue_string 2 1 False ?t (regs ?t) =
          ((regs ?t)\<lparr>cx := cx (regs ?t) - of_nat (869 + 1),
                      si := si (regs ?t) + of_nat (869 + 1),
                      di := di (regs ?t) + of_nat (869 + 1)\<rparr>, SIGTRAP, 1)"
  proof (rule continue_string_reaches_watchpoint [where w = "0x9366" and lo = "0x8000"
        and hi = "0xA000" and k = WATCH_READWRITE])
    show "\<forall>a. 0x8000 \<le> unat a \<and> unat a < 0xA000 \<longrightarrow> memory ?t a \<noteq> None"
      using scenario_memory_mapped [of "0xF3" "0xA4"]
      by (simp add: S1_traps_installed_def S1_trial S1_task_def scenario_task_def)
  qed (simp_all add: S1_traps_installed_def S1_trial S1_task_def scenario_task_def)
  then show ?thesis
    by (simp add: resume_execution_def rep_movsb_def rep_string_tracee_def)
       (simp add: S1_traps_installed_def S1_trial S1_task_def scenario_task_def)
qed

lemma S1_batched:
  "batched_phase rep_movsb 0x1000 rep_movsb_decoded 999 1 997 S1_after_trial_step 998 =
     Inr (S1_after_trial_step
            \<lparr>regs := \<lparr>ip = 0x1000, cx = 129, si = 0x8367, di = 0x9367, df_flag = False,
                        other_regs = []\<rparr>,
             pending_sig := SIGTRAP, debug_status := 0\<rparr>, 128)"
proof -
  have i: "install_fast_forward_traps 0x1000 rep_movsb_decoded 1 (997 - BYTES_COALESCED)
             S1_after_trial_step = Inr S1_traps_installed"
    using S1_install by (simp add: rep_movsb_decoded_def)
  show ?thesis
    unfolding batched_phase_def Let_def i
    by (simp add: S1_continue consume_debug_status_def SIGTRAP_def DS_WATCHPOINT_ANY_def)
       (simp add: S1_traps_installed_def S1_trial S1_task_def scenario_task_def
          remove_breakpoint_def restore_watchpoints_def rep_movsb_decoded_def)
qed

lemma S1_tail:
  "\<exists>t'. singlestep_remaining rep_movsb 0x1000
          (S1_after_trial_step
            \<lparr>regs := \<lparr>ip = 0x1000, cx = 129, si = 0x8367, di = 0x9367, df_flag = False,
                        other_regs = []\<rparr>,
             pending_sig := SIGTRAP, debug_status := 0\<rparr>) 128 = Inr t' \<and>
        ip (regs t') = 0x1000 \<and> cx (regs t') = 1"
proof -
  let ?t = "S1_after_trial_step
            \<lparr>regs := \<lparr>ip = 0x1000, cx = 129, si = 0x8367, di = 0x9367, df_flag = False,
                        other_regs = []\<rparr>,
             pending_sig := SIGTRAP, debug_status := 0\<rparr>"
  have "\<exists>t'. singlestep_remaining (rep_string_tracee 2 1 False) 0x1000 ?t (of_nat 128) = Inr t' \<and>
        regs t' = (regs ?t)\<lparr>cx := cx (regs ?t) - of_nat 128, si := si (regs ?t) + of_nat 128,
                            di := di (regs ?t) + of_nat 128\<rparr>"
  proof (rule singlestep_remaining_rep_movsb [where lo = "0x8000" and hi = "0xA000"])
    show "\<forall>a. 0x8000 \<le> unat a \<and> unat a < 0xA000 \<longrightarrow> memory ?t a \<noteq> None"
      using scenario_memory_mapped [of "0xF3" "0xA4"]
      by (simp add: S1_trial S1_task_def scenario_task_def)
  qed (simp_all add: S1_trial S1_task_def scenario_task_def)
  then show ?thesis by (auto simp: rep_movsb_def)
qed

lemma S1_run:
  "\<exists>t'. fast_forward_through_instruction rep_movsb stale_stack S1_task [] = Inr t' \<and>
        ip (regs t') = 0x1000 \<and> cx (regs t') = 1"
proof -
  from S1_tail obtain t' where
    tail: "singlestep_remaining rep_movsb 0x1000
          (S1_after_trial_step
            \<lparr>regs := \<lparr>ip = 0x1000, cx = 129, si = 0x8367, di = 0x9367, df_flag = False,
                        other_regs = []\<rparr>,
             pending_sig := SIGTRAP, debug_status := 0\<rparr>) 128 = Inr t'"
    and fin: "ip (regs t') = 0x1000" "cx (regs t') = 1"
    by blast
  have regs1: "regs S1_after_trial_step =
      \<lparr>ip = 0x1000, cx = 999, si = 0x8001, di = 0x9001, df_flag = False, other_regs = []\<rparr>"
    by (simp add: S1_trial)
  have run: "run_iterations rep_movsb 0x1000 rep_movsb_decoded 999 S1_after_trial_step 998
      = Inr t'"
    unfolding run_iterations_def Let_def
    by (simp add: regs1 rep_movsb_decoded_def BYTES_COALESCED_def)
       (simp add: S1_batched [unfolded rep_movsb_decoded_def] tail)
  have loop: "fast_forward_loop rep_movsb 0x1000 rep_movsb_decoded S1_after_trial_step [] []
      = Inr t'"
    by (subst fast_forward_loop.simps)
       (simp add: fast_forward_pass_def S1_iterations regs1 run fin)
  have "fast_forward_through_instruction rep_movsb stale_stack S1_task [] = Inr t'"
    unfolding fast_forward_through_instruction_def Let_def
      S1_after_trial_step_def [symmetric]
    by (simp add: S1_task_def [unfolded scenario_task_def, simplified] S1_decode loop)
       (simp add: S1_trial S1_task_def scenario_task_def SIGTRAP_def
          get_breakpoint_type_at_addr_def DS_SINGLESTEP_def DS_WATCHPOINT_ANY_def)
  with fin show ?thesis by blast
qed


subsection \<open>What every return leaves behind\<close>

lemma resume_execution_frame:
  "vm (resume_execution hw how t) = vm t"
  "memory (resume_execution hw how t) = memory t"
  "task_arch (resume_execution hw how t) = task_arch t"
  "regs (resume_execution hw how t) = fst (hw how t)"
  by (simp_all add: resume_execution_def split: prod.splits)

lemma resume_execution_cx:
  "cx_never_grows hw \<Longrightarrow> cx (regs (resume_execution hw how t)) \<le> cx (regs t)"
  by (simp add: resume_execution_frame cx_never_grows_def)

lemma install_fast_forward_traps_Inr:
  assumes "install_fast_forward_traps entry_ip decoded direction watch_offset t = Inr t'"
  shows "regs t' = regs t" "memory t' = memory t" "task_arch t' = task_arch t"
    "saved_watchpoints (vm t') = watchpoints (vm t) # saved_watchpoints (vm t)"
    "breakpoints (vm t') =
       add_mset (entry_ip + word_of_int (length' decoded), TRAP_BKPT_INTERNAL)
         (breakpoints (vm t))"
  using assms
  by (auto simp: install_fast_forward_traps_def Let_def add_watchpoint_def add_breakpoint_def
      save_watchpoints_def remove_all_watchpoints_def split: if_splits)

lemma batched_phase_Inr:
  assumes "batched_phase hw entry_ip decoded cur_cx direction watch_offset t iterations
             = Inr (t', iterations')"
  shows "vm t' = vm t" "memory t' = memory t" "task_arch t' = task_arch t"
    "debug_status t' = 0" "cx_never_grows hw \<longrightarrow> cx (regs t') \<le> cx (regs t)"
proof -
  from assms obtain t1 where
    inst: "install_fast_forward_traps entry_ip decoded direction
             (watch_offset - BYTES_COALESCED) t = Inr t1"
    by (auto simp: batched_phase_def Let_def split: sum.splits)
  let ?t2 = "resume_execution hw RESUME_CONT t1"
  let ?bp = "(entry_ip + word_of_int (length' decoded), TRAP_BKPT_INTERNAL)"
  from assms inst have f:
    "vm t' = restore_watchpoints (remove_breakpoint (vm t1)
               (entry_ip + word_of_int (length' decoded)) TRAP_BKPT_INTERNAL)"
    "memory t' = memory t1" "task_arch t' = task_arch t1" "debug_status t' = 0"
    "cx (regs t') = cx (regs ?t2)"
    by (auto simp: batched_phase_def Let_def consume_debug_status_def set_regs_def
        resume_execution_frame split: sum.splits if_splits)
  note i = install_fast_forward_traps_Inr [OF inst]
  show "vm t' = vm t"
    unfolding f(1) by (simp add: restore_watchpoints_def remove_breakpoint_def i)
  show "memory t' = memory t" "task_arch t' = task_arch t" "debug_status t' = 0"
    by (simp_all add: f i)
  show "cx_never_grows hw \<longrightarrow> cx (regs t') \<le> cx (regs t)"
    using resume_execution_cx [of hw RESUME_CONT t1] by (simp add: f i)
qed

lemma singlestep_remaining_Inr:
  "singlestep_remaining hw entry_ip t iterations = Inr t' \<Longrightarrow>
     vm t' = vm t \<and> memory t' = memory t \<and> task_arch t' = task_arch t \<and>
     (t' = t \<or> debug_status t' = 0) \<and>
     (0 < iterations \<and> ip (regs t) = entry_ip \<longrightarrow> debug_status t' = 0) \<and>
     (cx_never_grows hw \<longrightarrow> cx (regs t') \<le> cx (regs t))"
proof (induction hw entry_ip t iterations rule: singlestep_remaining.induct)
  case (1 hw entry_ip t iterations)
  show ?case
  proof (cases "iterations > 0 \<and> ip (regs t) = entry_ip")
    case False
    with "1.prems" show ?thesis
      by (subst (asm) singlestep_remaining.simps) auto
  next
    case True
    let ?t1 = "resume_execution hw RESUME_SINGLESTEP t"
    let ?t2 = "snd (consume_debug_status ?t1)"
    from "1.prems" True have sig: "\<not> pending_sig ?t1 \<noteq> SIGTRAP"
      and ds: "\<not> fst (consume_debug_status ?t1) AND DS_WATCHPOINT_ANY \<noteq> 0"
      and rec: "singlestep_remaining hw entry_ip ?t2 (iterations - 1) = Inr t'"
      by (subst (asm) singlestep_remaining.simps, simp split: if_splits)+
    note IH = "1.IH" [OF True sig ds rec]
    have t2: "vm ?t2 = vm t" "memory ?t2 = memory t" "task_arch ?t2 = task_arch t"
      "debug_status ?t2 = 0" "regs ?t2 = regs ?t1"
      by (simp_all add: consume_debug_status_def resume_execution_frame)
    have "cx_never_grows hw \<longrightarrow> cx (regs ?t2) \<le> cx (regs t)"
      using resume_execution_cx [of hw RESUME_SINGLESTEP t] by (simp add: t2)
    with IH t2 True show ?thesis by auto
  qed
qed


lemma run_iterations_Inr:
  assumes "run_iterations hw entry_ip decoded cur_cx t iterations = Inr t'"
  shows "vm t' = vm t" "memory t' = memory t" "task_arch t' = task_arch t"
    "iterations \<noteq> 0 \<and> ip (regs t) = entry_ip \<longrightarrow> debug_status t' = 0"
    "cx_never_grows hw \<longrightarrow> cx (regs t') \<le> cx (regs t)"
proof -
  let ?wo = "word_of_int (operand_size decoded) * (iterations - 1)"
  let ?dir = "if df_flag (regs t) then - 1 else 1 :: int"
  have all: "vm t' = vm t \<and> memory t' = memory t \<and> task_arch t' = task_arch t \<and>
     (iterations \<noteq> 0 \<and> ip (regs t) = entry_ip \<longrightarrow> debug_status t' = 0) \<and>
     (cx_never_grows hw \<longrightarrow> cx (regs t') \<le> cx (regs t))"
  proof (cases "?wo > BYTES_COALESCED")
    case False
    with assms have "singlestep_remaining hw entry_ip t iterations = Inr t'"
      by (simp add: run_iterations_def Let_def)
    from singlestep_remaining_Inr [OF this] show ?thesis
      by (auto simp: word_gt_0)
  next
    case True
    with assms obtain t1 it1 where
      b: "batched_phase hw entry_ip decoded cur_cx ?dir ?wo t iterations = Inr (t1, it1)"
      and s: "singlestep_remaining hw entry_ip t1 it1 = Inr t'"
      by (auto simp: run_iterations_def Let_def split: sum.splits)
    note B = batched_phase_Inr [OF b] and S = singlestep_remaining_Inr [OF s]
    from B S show ?thesis by auto
  qed
  then show "vm t' = vm t" "memory t' = memory t" "task_arch t' = task_arch t"
    "iterations \<noteq> 0 \<and> ip (regs t) = entry_ip \<longrightarrow> debug_status t' = 0"
    "cx_never_grows hw \<longrightarrow> cx (regs t') \<le> cx (regs t)"
    by simp_all
qed

lemma fast_forward_pass_returns:
  assumes "fast_forward_pass hw entry_ip decoded t states = Inl (Inr t')"
    and "ip (regs t) = entry_ip"
  shows "vm t' = vm t" "ip (regs t') = entry_ip" "t' = t \<or> debug_status t' = 0"
    "cx_never_grows hw \<longrightarrow> cx (regs t') \<le> cx (regs t)"
proof -
  have "t' = t \<or> (\<exists>iterations. iterations \<noteq> 0 \<and> ip (regs t') = entry_ip \<and>
          run_iterations hw entry_ip decoded (cx (regs t)) t iterations = Inr t')"
    using assms(1)
    by (auto simp: fast_forward_pass_def Let_def split: sum.splits option.splits if_splits)
  then have "vm t' = vm t \<and> ip (regs t') = entry_ip \<and> (t' = t \<or> debug_status t' = 0) \<and>
    (cx_never_grows hw \<longrightarrow> cx (regs t') \<le> cx (regs t))"
    using assms(2) run_iterations_Inr [of hw entry_ip decoded "cx (regs t)" t _ t'] by auto
  then show "vm t' = vm t" "ip (regs t') = entry_ip" "t' = t \<or> debug_status t' = 0"
    "cx_never_grows hw \<longrightarrow> cx (regs t') \<le> cx (regs t)"
    by simp_all
qed

lemma fast_forward_pass_early_exit:
  assumes "fast_forward_pass hw entry_ip decoded t states = Inr (t', r)"
    and "ip (regs t) = entry_ip"
  shows "r = regs t" "vm t' = vm t" "debug_status t' = 0"
proof -
  have "r = regs t \<and> (\<exists>iterations. iterations \<noteq> 0 \<and>
          run_iterations hw entry_ip decoded (cx (regs t)) t iterations = Inr t')"
    using assms(1)
    by (auto simp: fast_forward_pass_def Let_def split: sum.splits option.splits if_splits)
  then have "r = regs t \<and> vm t' = vm t \<and> debug_status t' = 0"
    using assms(2) run_iterations_Inr [of hw entry_ip decoded "cx (regs t)" t _ t'] by auto
  then show "r = regs t" "vm t' = vm t" "debug_status t' = 0" by simp_all
qed

lemma fast_forward_loop_retried:
  assumes "fast_forward_loop hw entry_ip decoded t states states_copy = Inr t'"
    and "states_copy \<noteq> []"
  shows "fast_forward_pass hw entry_ip decoded t states = Inl (Inr t')"
  using assms
  by (subst (asm) fast_forward_loop.simps) (auto split: sum.splits)

lemma fast_forward_loop_Inr:
  assumes "fast_forward_loop hw entry_ip decoded t states [] = Inr t'"
    and "ip (regs t) = entry_ip"
  shows "vm t' = vm t" "ip (regs t') = entry_ip" "t' = t \<or> debug_status t' = 0"
    "cx_never_grows hw \<longrightarrow> cx (regs t') \<le> cx (regs t)"
proof -
  have "vm t' = vm t \<and> ip (regs t') = entry_ip \<and> (t' = t \<or> debug_status t' = 0) \<and>
    (cx_never_grows hw \<longrightarrow> cx (regs t') \<le> cx (regs t))"
  proof (cases "fast_forward_pass hw entry_ip decoded t states")
    case (Inl result)
    with assms(1) have "fast_forward_pass hw entry_ip decoded t states = Inl (Inr t')"
      by (subst (asm) fast_forward_loop.simps) simp
    from fast_forward_pass_returns [OF this assms(2)] show ?thesis by simp
  next
    case (Inr p)
    obtain t1 r where p: "p = (t1, r)" by (cases p)
    note E = fast_forward_pass_early_exit [OF Inr [unfolded p] assms(2)]
    let ?t2 = "set_regs r t1"
    from assms(1) Inr p
    have "fast_forward_loop hw entry_ip decoded ?t2 (states @ [regs t1]) (states @ [regs t1])
            = Inr t'"
      by (subst (asm) fast_forward_loop.simps) simp
    then have "fast_forward_pass hw entry_ip decoded ?t2 (states @ [regs t1]) = Inl (Inr t')"
      by (rule fast_forward_loop_retried) simp
    moreover have "ip (regs ?t2) = entry_ip"
      using E(1) assms(2) by (simp add: set_regs_def)
    ultimately have R: "vm t' = vm ?t2" "ip (regs t') = entry_ip"
      "t' = ?t2 \<or> debug_status t' = 0"
      "cx_never_grows hw \<longrightarrow> cx (regs t') \<le> cx (regs ?t2)"
      by (rule fast_forward_pass_returns)+
    have "debug_status ?t2 = 0" "vm ?t2 = vm t" "regs ?t2 = regs t"
      using E by (simp_all add: set_regs_def)
    with R show ?thesis by auto
  qed
  then show "vm t' = vm t" "ip (regs t') = entry_ip" "t' = t \<or> debug_status t' = 0"
    "cx_never_grows hw \<longrightarrow> cx (regs t') \<le> cx (regs t)"
    by simp_all
qed

lemma fast_forward_through_instruction_Inr:
  assumes "fast_forward_through_instruction hw uninit t states = Inr t'"
  shows "vm t' = vm t"
    and "t' = resume_execution hw RESUME_SINGLESTEP t \<or>
         (ip (regs t') = ip (regs t) \<and> debug_status t' = 0)"
    and "ip (regs t') \<noteq> ip (regs t) \<longrightarrow> t' = resume_execution hw RESUME_SINGLESTEP t"
    and "cx_never_grows hw \<longrightarrow> cx (regs t') \<le> cx (regs t)"
proof -
  let ?t1 = "resume_execution hw RESUME_SINGLESTEP t"
  have "t' = ?t1 \<or> (ip (regs ?t1) = ip (regs t) \<and>
          (\<exists>decoded. fast_forward_loop hw (ip (regs t)) decoded ?t1 states [] = Inr t'))"
    using assms
    by (auto simp: fast_forward_through_instruction_def Let_def
        split: if_splits decode_result.splits)
  then have "vm t' = vm t \<and>
     (t' = ?t1 \<or> (ip (regs t') = ip (regs t) \<and> debug_status t' = 0)) \<and>
     (ip (regs t') \<noteq> ip (regs t) \<longrightarrow> t' = ?t1) \<and>
     (cx_never_grows hw \<longrightarrow> cx (regs t') \<le> cx (regs t))"
  proof (elim disjE conjE exE)
    assume "t' = ?t1"
    then show ?thesis
      using resume_execution_cx [of hw RESUME_SINGLESTEP t]
      by (simp add: resume_execution_frame)
  next
    fix decoded
    assume i: "ip (regs ?t1) = ip (regs t)"
      and l: "fast_forward_loop hw (ip (regs t)) decoded ?t1 states [] = Inr t'"
    note L = fast_forward_loop_Inr [OF l i]
    from L resume_execution_cx [of hw RESUME_SINGLESTEP t] show ?thesis
      by (auto simp: resume_execution_frame)
  qed
  then show "vm t' = vm t"
    and "t' = resume_execution hw RESUME_SINGLESTEP t \<or>
         (ip (regs t') = ip (regs t) \<and> debug_status t' = 0)"
    and "ip (regs t') \<noteq> ip (regs t) \<longrightarrow> t' = resume_execution hw RESUME_SINGLESTEP t"
    and "cx_never_grows hw \<longrightarrow> cx (regs t') \<le> cx (regs t)"
    by simp_all
qed

subsection \<open>The routine as a whole\<close>








lemma fast_forward_after_trial_step:
  assumes "resume_execution hw RESUME_SINGLESTEP t = t1"
    and "pending_sig t1 = SIGTRAP" "ip (regs t1) = ip (regs t)"
    and "breakpoints (vm t1) = {#}" "debug_status t1 AND DS_WATCHPOINT_ANY = 0"
    and "task_arch t1 = x86_64"
    and "decode_x86_string_instruction (read_instruction uninit t1 (ip (regs t))) = Decoded d"
  shows "fast_forward_through_instruction hw uninit t [] =
           fast_forward_loop hw (ip (regs t)) d t1 [] []"
  using assms
  by (simp add: fast_forward_through_instruction_def Let_def get_breakpoint_type_at_addr_def)

lemma rep_movsb_task_decode:
  assumes "memory t a = Some 0xF3" "memory t (a + 1) = Some 0xA4"
  shows "decode_x86_string_instruction (read_instruction uninit t a) = Decoded rep_movsb_decoded"
proof -
  from read_instruction_two_bytes [OF assms]
  obtain rest where "code_buf (read_instruction uninit t a) = 0xF3 # 0xA4 # rest"
    and "2 \<le> code_buf_len (read_instruction uninit t a)"
    by blast
  then show ?thesis
    using decode_rep_byte_instruction [of _ "0xA4" rest] by (simp add: rep_movsb_decoded_def)
qed

lemma short_task_trial:
  "resume_execution rep_movsb RESUME_SINGLESTEP short_task =
     short_task\<lparr>regs := \<lparr>ip = 0x1000, cx = 1, si = 0x8001, di = 0x9001, df_flag = False,
                           other_regs = []\<rparr>,
                pending_sig := SIGTRAP, debug_status := DS_SINGLESTEP\<rparr>"
  unfolding rep_movsb_def
  by (subst singlestep_rep_movsb)
     (simp_all add: short_task_def scenario_task_def scenario_memory_def)

text \<open>
  C6 as stated fails. On the soft-abort paths the debug status of the trial single-step is
  read (line 150) but never consumed: entered with \<^verbatim>\<open>CX = 2\<close>, the routine steps once, finds
  a bound of zero iterations and returns with the status of that step still pending.
\<close>

theorem debug_status_left_pending:
  "fast_forward_through_instruction rep_movsb stale_stack short_task [] =
     Inr (short_task\<lparr>regs := \<lparr>ip = 0x1000, cx = 1, si = 0x8001, di = 0x9001, df_flag = False,
                                other_regs = []\<rparr>,
                     pending_sig := SIGTRAP, debug_status := DS_SINGLESTEP\<rparr>) \<and>
   DS_SINGLESTEP \<noteq> 0"
proof -
  let ?t1 = "short_task\<lparr>regs := \<lparr>ip = 0x1000, cx = 1, si = 0x8001, di = 0x9001,
                                   df_flag = False, other_regs = []\<rparr>,
                pending_sig := SIGTRAP, debug_status := DS_SINGLESTEP\<rparr>"
  have d: "decode_x86_string_instruction (read_instruction stale_stack ?t1 (ip (regs short_task)))
      = Decoded rep_movsb_decoded"
    by (rule rep_movsb_task_decode)
       (simp_all add: short_task_def scenario_task_def scenario_memory_def)
  have "fast_forward_through_instruction rep_movsb stale_stack short_task [] =
          fast_forward_loop rep_movsb (ip (regs short_task)) rep_movsb_decoded ?t1 [] []"
    by (rule fast_forward_after_trial_step [OF short_task_trial _ _ _ _ _ d])
       (simp_all add: short_task_def scenario_task_def DS_SINGLESTEP_def DS_WATCHPOINT_ANY_def)
  also have "\<dots> = Inr ?t1"
    by (subst fast_forward_loop.simps)
       (simp add: fast_forward_pass_def compute_iterations_def all_watchpoints_def
          short_task_def scenario_task_def)
  finally show ?thesis by (simp add: DS_SINGLESTEP_def)
qed


lemma fault_task_trial:
  "resume_execution rep_movsb RESUME_SINGLESTEP fault_task =
     fault_task\<lparr>regs := \<lparr>ip = 0x1000, cx = 999, si = 0x8001, di = 0x9000, df_flag = False,
                           other_regs = []\<rparr>,
                pending_sig := SIGTRAP, debug_status := DS_SINGLESTEP\<rparr>"
  by (simp add: resume_execution_def rep_movsb_def rep_string_tracee_def string_iteration_def
      touches_watchpoint_def ranges_overlap_def fault_task_def user_watchpoint_def
      scenario_task_def scenario_memory_def Let_def)

lemma fault_task_iterations:
  "compute_iterations 0x1000 rep_movsb_decoded
     (fault_task\<lparr>regs := \<lparr>ip = 0x1000, cx = 999, si = 0x8001, di = 0x9000, df_flag = False,
                           other_regs = []\<rparr>,
                pending_sig := SIGTRAP, debug_status := DS_SINGLESTEP\<rparr>) [] = Inr (Some 998)"
  by (simp add: compute_iterations_def all_watchpoints_def fault_task_def scenario_task_def
      user_watchpoint_def bound_iterations_for_watchpoint_def mem_intersect_def
      rep_movsb_decoded_def ptr_diff_def signed_divide_int_def)

lemma fault_task_batched:
  "batched_phase rep_movsb 0x1000 rep_movsb_decoded 999 1 997
     (fault_task\<lparr>regs := \<lparr>ip = 0x1000, cx = 999, si = 0x8001, di = 0x9000, df_flag = False,
                           other_regs = []\<rparr>,
                pending_sig := SIGTRAP, debug_status := DS_SINGLESTEP\<rparr>) 998 =
     Inl (AssertionFailed 272, fault_task_aborted)"
  unfolding batched_phase_def Let_def
  by (simp add: install_fast_forward_traps_def Let_def save_watchpoints_def
        remove_all_watchpoints_def add_watchpoint_def add_breakpoint_def BYTES_COALESCED_def
        fault_task_def scenario_task_def scenario_memory_def rep_movsb_decoded_def
        resume_execution_def rep_movsb_def rep_string_tracee_def
        continue_string.simps [of _ _ _ _ "\<lparr>ip = 0x1000, cx = 999, si = 0x8001, di = 0x9000,
           df_flag = False, other_regs = []\<rparr>"]
        SIGSEGV_def SIGTRAP_def fault_task_aborted_def)

text \<open>
  C2 as stated fails. There is no scoped release: when the wait of the batched phase does
  not come back with the trap expected (here the copy faults on its second iteration and
  the tracee stops with \<^verbatim>\<open>SIGSEGV\<close>), the assertion of line 272 aborts with the temporary
  watchpoint and the internal breakpoint installed and the saved watchpoints not restored.
\<close>

theorem abort_leaves_traps_installed:
  "fast_forward_through_instruction rep_movsb stale_stack fault_task [] =
     Inl (AssertionFailed 272, fault_task_aborted) \<and>
   vm fault_task =
     \<lparr>breakpoints = {#}, watchpoints = [user_watchpoint], saved_watchpoints = []\<rparr> \<and>
   vm fault_task_aborted =
     \<lparr>breakpoints = {#(0x1002, TRAP_BKPT_INTERNAL)#},
      watchpoints = [\<lparr>addr = 0x9365, num_bytes = 1, kind = WATCH_READWRITE\<rparr>],
      saved_watchpoints = [[user_watchpoint]]\<rparr>"
proof -
  let ?t1 = "fault_task\<lparr>regs := \<lparr>ip = 0x1000, cx = 999, si = 0x8001, di = 0x9000,
                                   df_flag = False, other_regs = []\<rparr>,
                pending_sig := SIGTRAP, debug_status := DS_SINGLESTEP\<rparr>"
  have d: "decode_x86_string_instruction (read_instruction stale_stack ?t1 (ip (regs fault_task)))
      = Decoded rep_movsb_decoded"
    by (rule rep_movsb_task_decode)
       (simp_all add: fault_task_def scenario_task_def scenario_memory_def)
  have "fast_forward_through_instruction rep_movsb stale_stack fault_task [] =
          fast_forward_loop rep_movsb (ip (regs fault_task)) rep_movsb_decoded ?t1 [] []"
    by (rule fast_forward_after_trial_step [OF fault_task_trial _ _ _ _ _ d])
       (simp_all add: fault_task_def scenario_task_def DS_SINGLESTEP_def DS_WATCHPOINT_ANY_def)
  also have "ip (regs fault_task) = 0x1000"
    by (simp add: fault_task_def scenario_task_def)
  also have "fast_forward_loop rep_movsb 0x1000 rep_movsb_decoded ?t1 [] [] =
      Inl (AssertionFailed 272, fault_task_aborted)"
  proof -
    have sz: "operand_size rep_movsb_decoded = 1" by (simp add: rep_movsb_decoded_def)
    have run: "run_iterations rep_movsb 0x1000 rep_movsb_decoded 999 ?t1 998 =
        Inl (AssertionFailed 272, fault_task_aborted)"
      unfolding run_iterations_def Let_def
      by (simp add: sz BYTES_COALESCED_def fault_task_batched)
    show ?thesis
      by (subst fast_forward_loop.simps)
         (simp add: fast_forward_pass_def fault_task_iterations run)
  qed
  finally show ?thesis
    by (simp add: fault_task_aborted_def) (simp add: fault_task_def scenario_task_def)
qed




text \<open>
  C2, amended: on every path on which the routine returns (the soft aborts, the end of
  the batched phase and of the single-steps, the retry after an early exit) the
  breakpoints, the watchpoints and the saved watchpoint sets are those of the entry: the
  internal breakpoint and the temporary watchpoint are removed and the saved set is
  restored. (A failed assertion does not return.)
\<close>

theorem traps_removed_on_return:
  assumes "fast_forward_through_instruction hw uninit t states = Inr t'"
  shows "breakpoints (vm t') = breakpoints (vm t) \<and>
         watchpoints (vm t') = watchpoints (vm t) \<and>
         saved_watchpoints (vm t') = saved_watchpoints (vm t)"
  using fast_forward_through_instruction_Inr(1) [OF assms] by simp

theorem traps_removed_on_return_witness:
  "\<exists>t'. fast_forward_through_instruction rep_movsb stale_stack S1_task [] = Inr t' \<and>
        cx (regs t') = 1 \<and>
        breakpoints (vm t') = {#} \<and> watchpoints (vm t') = [] \<and> saved_watchpoints (vm t') = []"
proof -
  from S1_run obtain t' where
    run: "fast_forward_through_instruction rep_movsb stale_stack S1_task [] = Inr t'"
    and c: "cx (regs t') = 1"
    by blast
  from traps_removed_on_return [OF run] run c show ?thesis
    by (auto simp: S1_task_def scenario_task_def)
qed

text \<open>
  C6, amended: whenever the routine returns, either it returns the task as the trial
  single-step left it, that step's debug status read but not consumed (the soft-abort
  paths), or the debug status has been consumed.
\<close>

theorem debug_status_on_return:
  assumes "fast_forward_through_instruction hw uninit t states = Inr t'"
  shows "t' = resume_execution hw RESUME_SINGLESTEP t \<or> debug_status t' = 0"
  using fast_forward_through_instruction_Inr(2) [OF assms] by auto

theorem debug_status_on_return_witness:
  "\<exists>t'. fast_forward_through_instruction rep_movsb stale_stack S1_task [] = Inr t' \<and>
        cx (regs t') = 1 \<and> debug_status t' = 0"
proof -
  from S1_run obtain t' where
    run: "fast_forward_through_instruction rep_movsb stale_stack S1_task [] = Inr t'"
    and c: "cx (regs t') = 1"
    by blast
  have "cx (regs (resume_execution rep_movsb RESUME_SINGLESTEP S1_task)) = 999"
    using S1_trial by (simp add: S1_after_trial_step_def)
  with c have "t' \<noteq> resume_execution rep_movsb RESUME_SINGLESTEP S1_task" by auto
  with debug_status_on_return [OF run] run c show ?thesis by auto
qed

text \<open>
  C7: the retry after an early exit of the instruction (take the registers at the exit as
  a further state to avoid, put back the registers saved before the stepping, and bound
  and run again) happens at most once in a call: the loop, entered with an empty
  \<^verbatim>\<open>states_copy\<close> as the routine enters it, is at most two passes, and a second early exit
  fails the assertion of line 312 and aborts.
\<close>

theorem zf_retry_at_most_once:
  "fast_forward_loop hw entry_ip decoded t states [] =
     (case fast_forward_pass hw entry_ip decoded t states of
        Inl result \<Rightarrow> result
      | Inr (t1, r) \<Rightarrow>
          (case fast_forward_pass hw entry_ip decoded (set_regs r t1) (states @ [regs t1]) of
             Inl result \<Rightarrow> result
           | Inr (t2, r2) \<Rightarrow> Inl (AssertionFailed 312, t2)))"
  by (subst fast_forward_loop.simps, simp split: sum.splits prod.splits)
     (auto simp: fast_forward_loop.simps [of _ _ _ _ _ "_ @ [_]"] split: sum.splits)


lemmas cmps_eval =
  singlestep_remaining.simps resume_execution_def consume_debug_status_def rep_cmpsb_def
  rep_string_tracee_def string_iteration_def touches_watchpoint_def cmps_task_def
  cmps_regs_def scenario_memory_def SIGTRAP_def DS_SINGLESTEP_def DS_WATCHPOINT_ANY_def

lemma cmps_first_tail:
  "singlestep_remaining rep_cmpsb 0x1000 (cmps_task (cmps_regs 0x1000 9 1) DS_SINGLESTEP) 8 =
     Inr (cmps_task (cmps_regs 0x1002 4 6) 0)"
  by (simp add: cmps_eval)

lemma cmps_second_tail:
  "singlestep_remaining rep_cmpsb 0x1000 (cmps_task (cmps_regs 0x1000 9 1) 0) 4 =
     Inr (cmps_task (cmps_regs 0x1000 5 5) 0)"
  by (simp add: cmps_eval)


lemma cmps_first_pass:
  "fast_forward_pass rep_cmpsb 0x1000 rep_cmpsb_decoded
     (cmps_task (cmps_regs 0x1000 9 1) DS_SINGLESTEP) [] =
   Inr (cmps_task (cmps_regs 0x1002 4 6) 0, cmps_regs 0x1000 9 1)"
proof -
  have r: "regs (cmps_task (cmps_regs 0x1000 9 1) DS_SINGLESTEP) = cmps_regs 0x1000 9 1"
    "regs (cmps_task (cmps_regs 0x1002 4 6) 0) = cmps_regs 0x1002 4 6"
    "vm (cmps_task (cmps_regs 0x1000 9 1) DS_SINGLESTEP)
       = \<lparr>breakpoints = {#}, watchpoints = [], saved_watchpoints = []\<rparr>"
    by (simp_all add: cmps_task_def)
  have c: "cx (cmps_regs 0x1000 9 1) = 9" "df_flag (cmps_regs 0x1000 9 1) = False"
    "ip (cmps_regs 0x1002 4 6) = 0x1002"
    by (simp_all add: cmps_regs_def)
  have d: "operand_size rep_cmpsb_decoded = 1" "length' rep_cmpsb_decoded = 2"
    "modifies_flags rep_cmpsb_decoded"
    by (simp_all add: rep_cmpsb_decoded_def)
  have run: "run_iterations rep_cmpsb 0x1000 rep_cmpsb_decoded 9
               (cmps_task (cmps_regs 0x1000 9 1) DS_SINGLESTEP) 8 =
             Inr (cmps_task (cmps_regs 0x1002 4 6) 0)"
    by (simp add: run_iterations_def Let_def r c d BYTES_COALESCED_def cmps_first_tail)
  show ?thesis
    by (simp add: fast_forward_pass_def compute_iterations_def all_watchpoints_def r c d run)
qed

lemma cmps_second_pass:
  "fast_forward_pass rep_cmpsb 0x1000 rep_cmpsb_decoded
     (set_regs (cmps_regs 0x1000 9 1) (cmps_task (cmps_regs 0x1002 4 6) 0))
     [regs (cmps_task (cmps_regs 0x1002 4 6) 0)] =
   Inl (Inr (cmps_task (cmps_regs 0x1000 5 5) 0))"
proof -
  have t: "set_regs (cmps_regs 0x1000 9 1) (cmps_task (cmps_regs 0x1002 4 6) 0) =
           cmps_task (cmps_regs 0x1000 9 1) 0"
    by (simp add: set_regs_def cmps_task_def)
  have r: "regs (cmps_task (cmps_regs 0x1000 9 1) 0) = cmps_regs 0x1000 9 1"
    "regs (cmps_task (cmps_regs 0x1002 4 6) 0) = cmps_regs 0x1002 4 6"
    "regs (cmps_task (cmps_regs 0x1000 5 5) 0) = cmps_regs 0x1000 5 5"
    "vm (cmps_task (cmps_regs 0x1000 9 1) 0)
       = \<lparr>breakpoints = {#}, watchpoints = [], saved_watchpoints = []\<rparr>"
    by (simp_all add: cmps_task_def)
  have c: "cx (cmps_regs 0x1000 9 1) = 9" "df_flag (cmps_regs 0x1000 9 1) = False"
    "ip (cmps_regs 0x1002 4 6) = 0x1002" "cx (cmps_regs 0x1002 4 6) = 4"
    "ip (cmps_regs 0x1000 5 5) = 0x1000"
    by (simp_all add: cmps_regs_def)
  have d: "operand_size rep_cmpsb_decoded = 1" "length' rep_cmpsb_decoded = 2"
    "modifies_flags rep_cmpsb_decoded"
    by (simp_all add: rep_cmpsb_decoded_def)
  have run: "run_iterations rep_cmpsb 0x1000 rep_cmpsb_decoded 9
               (cmps_task (cmps_regs 0x1000 9 1) 0) 4 =
             Inr (cmps_task (cmps_regs 0x1000 5 5) 0)"
    by (simp add: run_iterations_def Let_def r c d BYTES_COALESCED_def cmps_second_tail)
  show ?thesis
    unfolding t
    by (simp add: fast_forward_pass_def compute_iterations_def all_watchpoints_def r c d run)
qed

theorem zf_retry_at_most_once_witness:
  "fast_forward_pass rep_cmpsb 0x1000 rep_cmpsb_decoded
     (cmps_task (cmps_regs 0x1000 9 1) DS_SINGLESTEP) [] =
     Inr (cmps_task (cmps_regs 0x1002 4 6) 0, cmps_regs 0x1000 9 1) \<and>
   fast_forward_loop rep_cmpsb 0x1000 rep_cmpsb_decoded
     (cmps_task (cmps_regs 0x1000 9 1) DS_SINGLESTEP) [] [] =
     Inr (cmps_task (cmps_regs 0x1000 5 5) 0)"
  using zf_retry_at_most_once [of rep_cmpsb "0x1000" rep_cmpsb_decoded
          "cmps_task (cmps_regs 0x1000 9 1) DS_SINGLESTEP" "[]"]
  by (simp add: cmps_first_pass cmps_second_pass)

lemma cmps_run:
  "fast_forward_through_instruction rep_cmpsb stale_stack (cmps_task (cmps_regs 0x1000 10 0) 0) []
     = Inr (cmps_task (cmps_regs 0x1000 5 5) 0)"
proof -
  let ?t = "cmps_task (cmps_regs 0x1000 10 0) 0"
  let ?t1 = "cmps_task (cmps_regs 0x1000 9 1) DS_SINGLESTEP"
  have i: "ip (regs ?t) = 0x1000" by (simp add: cmps_task_def cmps_regs_def)
  have trial: "resume_execution rep_cmpsb RESUME_SINGLESTEP ?t = ?t1"
    by (simp add: resume_execution_def rep_cmpsb_def rep_string_tracee_def string_iteration_def
        touches_watchpoint_def cmps_task_def cmps_regs_def scenario_memory_def)
  have m: "memory ?t1 0x1000 = Some 0xF3" "memory ?t1 (0x1000 + 1) = Some 0xA6"
    by (simp_all add: cmps_task_def scenario_memory_def)
  from read_instruction_two_bytes [OF m]
  obtain rest where "code_buf (read_instruction stale_stack ?t1 0x1000) = 0xF3 # 0xA6 # rest"
    and "2 \<le> code_buf_len (read_instruction stale_stack ?t1 0x1000)"
    by blast
  then have d: "decode_x86_string_instruction (read_instruction stale_stack ?t1 (ip (regs ?t)))
      = Decoded rep_cmpsb_decoded"
    using decode_rep_byte_instruction [of _ "0xA6" rest]
    by (simp add: rep_cmpsb_decoded_def i)
  have "fast_forward_through_instruction rep_cmpsb stale_stack ?t [] =
          fast_forward_loop rep_cmpsb (ip (regs ?t)) rep_cmpsb_decoded ?t1 [] []"
    by (rule fast_forward_after_trial_step [OF trial _ _ _ _ _ d])
       (simp_all add: cmps_task_def cmps_regs_def DS_SINGLESTEP_def DS_WATCHPOINT_ANY_def)
  also have "\<dots> = Inr (cmps_task (cmps_regs 0x1000 5 5) 0)"
    unfolding i
    by (subst fast_forward_loop.simps, simp add: cmps_first_pass,
        subst fast_forward_loop.simps, simp add: cmps_second_pass)
  finally show ?thesis .
qed

subsection \<open>Scenario S1, observed\<close>

lemma watch_probe_singlestep:
  "resume_execution (watch_probe hw) RESUME_SINGLESTEP t = resume_execution hw RESUME_SINGLESTEP t"
  by (simp add: resume_execution_def watch_probe_def split: prod.splits)

lemma singlestep_remaining_watch_probe:
  "singlestep_remaining (watch_probe hw) entry_ip t iterations =
     singlestep_remaining hw entry_ip t iterations"
proof (induction hw entry_ip t iterations rule: singlestep_remaining.induct)
  case (1 hw entry_ip t iterations)
  show ?case
  proof (cases "iterations > 0 \<and> ip (regs t) = entry_ip")
    case False
    then show ?thesis
      by (subst singlestep_remaining.simps, subst (2) singlestep_remaining.simps) auto
  next
    case True
    let ?t1 = "resume_execution hw RESUME_SINGLESTEP t"
    show ?thesis
    proof (cases "pending_sig ?t1 \<noteq> SIGTRAP \<or>
                  fst (consume_debug_status ?t1) AND DS_WATCHPOINT_ANY \<noteq> 0")
      case stop: True
      with True show ?thesis
        by (subst singlestep_remaining.simps, subst (2) singlestep_remaining.simps)
           (auto simp: watch_probe_singlestep)
    next
      case go: False
      then have a: "\<not> pending_sig ?t1 \<noteq> SIGTRAP"
        and b: "\<not> fst (consume_debug_status ?t1) AND DS_WATCHPOINT_ANY \<noteq> 0"
        by auto
      from "1.IH" [OF True a b] True a b show ?thesis
        by (subst singlestep_remaining.simps, subst (2) singlestep_remaining.simps)
           (simp add: watch_probe_singlestep)
    qed
  qed
qed

lemma S1_probe_batched:
  "batched_phase (watch_probe rep_movsb) 0x1000 rep_movsb_decoded 999 1 997
     S1_after_trial_step 998 =
     Inr (S1_after_trial_step
            \<lparr>regs := \<lparr>ip = 0x1000, cx = 129, si = 0x8367, di = 0x9367, df_flag = False,
                        other_regs = [0x9366]\<rparr>,
             pending_sig := SIGTRAP, debug_status := 0\<rparr>, 128)"
proof -
  have i: "install_fast_forward_traps 0x1000 rep_movsb_decoded 1 (997 - BYTES_COALESCED)
             S1_after_trial_step = Inr S1_traps_installed"
    using S1_install by (simp add: rep_movsb_decoded_def)
  have c: "resume_execution (watch_probe rep_movsb) RESUME_CONT S1_traps_installed =
     S1_traps_installed
       \<lparr>regs := \<lparr>ip = 0x1000, cx = 129, si = 0x8367, di = 0x9367, df_flag = False,
                   other_regs = [0x9366]\<rparr>,
        pending_sig := SIGTRAP, debug_status := 1\<rparr>"
  proof -
    have "rep_movsb RESUME_CONT S1_traps_installed =
            (\<lparr>ip = 0x1000, cx = 129, si = 0x8367, di = 0x9367, df_flag = False,
                other_regs = []\<rparr>, SIGTRAP, 1)"
      using arg_cong [OF S1_continue, of regs] arg_cong [OF S1_continue, of pending_sig]
        arg_cong [OF S1_continue, of debug_status]
      by (simp add: resume_execution_def split: prod.splits)
    then show ?thesis
      by (simp add: resume_execution_def watch_probe_def S1_traps_installed_def)
  qed
  show ?thesis
    unfolding batched_phase_def Let_def i
    by (simp add: c consume_debug_status_def SIGTRAP_def DS_WATCHPOINT_ANY_def)
       (simp add: S1_traps_installed_def S1_trial S1_task_def scenario_task_def
          remove_breakpoint_def restore_watchpoints_def rep_movsb_decoded_def)
qed


lemma S1_probe_tail:
  "\<exists>t'. singlestep_remaining (watch_probe rep_movsb) 0x1000
          (S1_after_trial_step
            \<lparr>regs := \<lparr>ip = 0x1000, cx = 129, si = 0x8367, di = 0x9367, df_flag = False,
                        other_regs = [0x9366]\<rparr>,
             pending_sig := SIGTRAP, debug_status := 0\<rparr>) 128 = Inr t' \<and>
        ip (regs t') = 0x1000 \<and> cx (regs t') = 1 \<and> other_regs (regs t') = [0x9366]"
proof -
  let ?t = "S1_after_trial_step
            \<lparr>regs := \<lparr>ip = 0x1000, cx = 129, si = 0x8367, di = 0x9367, df_flag = False,
                        other_regs = [0x9366]\<rparr>,
             pending_sig := SIGTRAP, debug_status := 0\<rparr>"
  have "\<exists>t'. singlestep_remaining (rep_string_tracee 2 1 False) 0x1000 ?t (of_nat 128) = Inr t' \<and>
        regs t' = (regs ?t)\<lparr>cx := cx (regs ?t) - of_nat 128, si := si (regs ?t) + of_nat 128,
                            di := di (regs ?t) + of_nat 128\<rparr>"
  proof (rule singlestep_remaining_rep_movsb [where lo = "0x8000" and hi = "0xA000"])
    show "\<forall>a. 0x8000 \<le> unat a \<and> unat a < 0xA000 \<longrightarrow> memory ?t a \<noteq> None"
      using scenario_memory_mapped [of "0xF3" "0xA4"]
      by (simp add: S1_trial S1_task_def scenario_task_def)
  qed (simp_all add: S1_trial S1_task_def scenario_task_def)
  then show ?thesis
    by (auto simp: rep_movsb_def singlestep_remaining_watch_probe)
qed

lemma S1_probe_run:
  "\<exists>t'. fast_forward_through_instruction (watch_probe rep_movsb) stale_stack S1_task [] = Inr t' \<and>
        other_regs (regs t') = [0x9366] \<and> ip (regs t') = 0x1000 \<and> cx (regs t') = 1"
proof -
  from S1_probe_tail obtain t' where
    tail: "singlestep_remaining (watch_probe rep_movsb) 0x1000
          (S1_after_trial_step
            \<lparr>regs := \<lparr>ip = 0x1000, cx = 129, si = 0x8367, di = 0x9367, df_flag = False,
                        other_regs = [0x9366]\<rparr>,
             pending_sig := SIGTRAP, debug_status := 0\<rparr>) 128 = Inr t'"
    and fin: "ip (regs t') = 0x1000" "cx (regs t') = 1" "other_regs (regs t') = [0x9366]"
    by blast
  have regs1: "regs S1_after_trial_step =
      \<lparr>ip = 0x1000, cx = 999, si = 0x8001, di = 0x9001, df_flag = False, other_regs = []\<rparr>"
    by (simp add: S1_trial)
  have run: "run_iterations (watch_probe rep_movsb) 0x1000 rep_movsb_decoded 999
      S1_after_trial_step 998 = Inr t'"
    unfolding run_iterations_def Let_def
    by (simp add: regs1 rep_movsb_decoded_def BYTES_COALESCED_def)
       (simp add: S1_probe_batched [unfolded rep_movsb_decoded_def] tail)
  have loop: "fast_forward_loop (watch_probe rep_movsb) 0x1000 rep_movsb_decoded
      S1_after_trial_step [] [] = Inr t'"
    by (subst fast_forward_loop.simps)
       (simp add: fast_forward_pass_def S1_iterations regs1 run fin)
  have trial: "resume_execution (watch_probe rep_movsb) RESUME_SINGLESTEP S1_task
      = S1_after_trial_step"
    by (simp add: watch_probe_singlestep S1_after_trial_step_def)
  have i: "ip (regs S1_task) = 0x1000" by (simp add: S1_task_def scenario_task_def)
  have "fast_forward_through_instruction (watch_probe rep_movsb) stale_stack S1_task [] =
          fast_forward_loop (watch_probe rep_movsb) (ip (regs S1_task)) rep_movsb_decoded
            S1_after_trial_step [] []"
    by (rule fast_forward_after_trial_step [OF trial])
       (simp_all add: i S1_decode,
        simp_all add: S1_trial S1_task_def scenario_task_def DS_SINGLESTEP_def
          DS_WATCHPOINT_ANY_def)
  with loop i fin show ?thesis by simp
qed

text \<open>
  C5: in scenario S1 (x86_64, \<^verbatim>\<open>DF = 0\<close>, no watchpoints or breakpoints, no target states,
  bytes \<^verbatim>\<open>F3 A4\<close> at \<open>0x1000\<close>, \<^verbatim>\<open>CX = 1000\<close>, \<^verbatim>\<open>SI = 0x8000\<close>, \<^verbatim>\<open>DI = 0x9000\<close>) the decoder
  yields size 1 and length 2, after the trial step the bound on the iterations is 998, the
  routine continues the tracee exactly once, under the single watchpoint at
  \<open>DI + 998 - 128 = 0x9366\<close> (\<^verbatim>\<open>DI\<close> as at entry), which is what the observing tracee has
  noted in the registers returned, and the routine returns with \<open>IP = 0x1000\<close> and
  \<open>CX = 1\<close>.
\<close>

theorem S1_fast_forward:
  "decode_x86_string_instruction (read_instruction stale_stack S1_after_trial_step 0x1000) =
     Decoded rep_movsb_decoded \<and>
   operand_size rep_movsb_decoded = 1 \<and> length' rep_movsb_decoded = 2 \<and>
   compute_iterations 0x1000 rep_movsb_decoded S1_after_trial_step [] = Inr (Some 998) \<and>
   (\<exists>t'. fast_forward_through_instruction (watch_probe rep_movsb) stale_stack S1_task [] = Inr t' \<and>
         other_regs (regs t') = [di (regs S1_task) + 998 - 128] \<and>
         ip (regs t') = 0x1000 \<and> cx (regs t') = 1) \<and>
   di (regs S1_task) + 998 - 128 = 0x9366 \<and> other_regs (regs S1_task) = [] \<and>
   (\<exists>t'. fast_forward_through_instruction rep_movsb stale_stack S1_task [] = Inr t' \<and>
         ip (regs t') = 0x1000 \<and> cx (regs t') = 1)"
  using S1_decode S1_iterations S1_probe_run S1_run
  by (simp add: S1_task_def scenario_task_def rep_movsb_decoded_def)

end
